theory Spec2Isabelle
  imports
    Complex_Main
    "HOL-Library.Product_Lexorder"
    "HOL-Library.Multiset"
    "HOL-Library.Sublist"
begin

section \<open>JavaScript numbers\<close>

text \<open>
  The analysis computes with JavaScript numbers. A score is the result of two divisions
  of array lengths, so besides ordinary values it can be \<open>NaN\<close> (\<open>0 / 0\<close>) or
  \<open>Infinity\<close> (\<open>n / 0\<close>), and the code tests scores for truthiness. The model keeps
  these special values and takes the finite values as reals. The operations \<open>num_add\<close>,
  \<open>num_div\<close>, ... of this section give the exact result; the operations \<open>dbl_add\<close>,
  \<open>dbl_div\<close>, ... of the next section round it to the nearest double, as the machine
  does. The scorer and the median use the exact operations (a score is rounded to an
  integer before it is stored); the standard deviation and the bounds of the outlier
  filter, whose comparisons can turn on the last bit, use the rounding ones. The sign of
  zero is not modelled (every zero that is divided by here is the length of an array,
  hence \<open>+0\<close>).
\<close>

datatype number = NaN | Infinity | NegInfinity | Finite real

fun num_neg :: "number \<Rightarrow> number" where
  "num_neg NaN = NaN"
| "num_neg Infinity = NegInfinity"
| "num_neg NegInfinity = Infinity"
| "num_neg (Finite a) = Finite (- a)"

fun num_add :: "number \<Rightarrow> number \<Rightarrow> number" where
  "num_add (Finite a) (Finite b) = Finite (a + b)"
| "num_add NaN _ = NaN"
| "num_add _ NaN = NaN"
| "num_add Infinity NegInfinity = NaN"
| "num_add NegInfinity Infinity = NaN"
| "num_add Infinity _ = Infinity"
| "num_add _ Infinity = Infinity"
| "num_add NegInfinity _ = NegInfinity"
| "num_add _ NegInfinity = NegInfinity"

definition num_sub :: "number \<Rightarrow> number \<Rightarrow> number" where
  "num_sub a b = num_add a (num_neg b)"

text \<open>The sign of a number that is not \<open>NaN\<close>: \<open>-1\<close>, \<open>0\<close> or \<open>1\<close>.\<close>

fun num_sign :: "number \<Rightarrow> int" where
  "num_sign NaN = 0"
| "num_sign Infinity = 1"
| "num_sign NegInfinity = - 1"
| "num_sign (Finite a) = (if a < 0 then - 1 else if a = 0 then 0 else 1)"

definition signed_infinity :: "int \<Rightarrow> number" where
  "signed_infinity s = (if s < 0 then NegInfinity else Infinity)"

fun num_mul :: "number \<Rightarrow> number \<Rightarrow> number" where
  "num_mul (Finite a) (Finite b) = Finite (a * b)"
| "num_mul NaN _ = NaN"
| "num_mul _ NaN = NaN"
| "num_mul a b =
     (if num_sign a = 0 \<or> num_sign b = 0 then NaN
      else signed_infinity (num_sign a * num_sign b))"

fun num_div :: "number \<Rightarrow> number \<Rightarrow> number" where
  "num_div (Finite a) (Finite b) =
     (if b = 0 then (if a = 0 then NaN else signed_infinity (num_sign (Finite a)))
      else Finite (a / b))"
| "num_div NaN _ = NaN"
| "num_div _ NaN = NaN"
| "num_div (Finite a) _ = Finite 0"
| "num_div a (Finite b) =
     signed_infinity (num_sign a * (if b < 0 then - 1 else 1))"
| "num_div _ _ = NaN"

fun num_sqrt :: "number \<Rightarrow> number" where
  "num_sqrt NaN = NaN"
| "num_sqrt Infinity = Infinity"
| "num_sqrt NegInfinity = NaN"
| "num_sqrt (Finite a) = (if a < 0 then NaN else Finite (sqrt a))"

text \<open>\<open>a < b\<close> and \<open>a > b\<close>: false as soon as one side is \<open>NaN\<close>.\<close>

fun num_less :: "number \<Rightarrow> number \<Rightarrow> bool" where
  "num_less (Finite a) (Finite b) = (a < b)"
| "num_less NaN _ = False"
| "num_less _ NaN = False"
| "num_less _ NegInfinity = False"
| "num_less Infinity _ = False"
| "num_less NegInfinity _ = True"
| "num_less _ Infinity = True"

definition num_greater :: "number \<Rightarrow> number \<Rightarrow> bool" where
  "num_greater a b = num_less b a"

text \<open>Truthiness of a number: \<open>NaN\<close> and zero are falsy, everything else is truthy.\<close>

fun truthy :: "number \<Rightarrow> bool" where
  "truthy NaN = False"
| "truthy (Finite a) = (a \<noteq> 0)"
| "truthy _ = True"

text \<open>
  \<open>Number(x.toFixed())\<close>: the nearest integer, a tie going away from zero; a value of
  magnitude \<open>10^21\<close> or more, \<open>NaN\<close> and the infinities are printed and read back unchanged.
\<close>

fun toFixed0 :: "number \<Rightarrow> number" where
  "toFixed0 (Finite a) =
     (if \<bar>a\<bar> \<ge> 10 ^ 21 then Finite a
      else Finite (sgn a * of_int \<lfloor>\<bar>a\<bar> + 1 / 2\<rfloor>))"
| "toFixed0 n = n"

text \<open>
  \<open>array.sort((a, b) => a - b)\<close>: a stable sort by the sign of the difference. On
  numbers other than \<open>NaN\<close> that is the ascending order with \<open>-Infinity\<close> first and
  \<open>Infinity\<close> last (the difference of two equal infinities is \<open>NaN\<close>, which the sort
  takes as "equal"). With a \<open>NaN\<close> in the array the comparator is inconsistent and the
  language leaves the order open; the key below puts it last, and no theorem relies on
  that.
\<close>

fun num_key :: "number \<Rightarrow> nat \<times> real" where
  "num_key NegInfinity = (0, 0)"
| "num_key (Finite a) = (1, a)"
| "num_key Infinity = (2, 0)"
| "num_key NaN = (3, 0)"

section \<open>Double arithmetic\<close>

text \<open>
  An operation on doubles returns the exact result rounded to the nearest double, a tie
  going to the one with the even significand (IEEE 754 binary64, the only rounding mode
  of the language). \<open>fl\<close> is that rounding. A double of binary exponent \<open>e\<close> is a multiple
  of \<open>2^(e - 52)\<close>; below \<open>2^(-1022)\<close> the doubles are the multiples of \<open>2^(-1074)\<close>;
  a result that rounds to a magnitude of \<open>2^1024\<close> or more overflows to an infinity.
\<close>

definition round_to_even :: "real \<Rightarrow> int" where
  "round_to_even x =
     (if x - of_int \<lfloor>x\<rfloor> < 1 / 2 then \<lfloor>x\<rfloor>
      else if x - of_int \<lfloor>x\<rfloor> > 1 / 2 then \<lfloor>x\<rfloor> + 1
      else if even \<lfloor>x\<rfloor> then \<lfloor>x\<rfloor> else \<lfloor>x\<rfloor> + 1)"

definition exponent :: "real \<Rightarrow> int" where
  "exponent x = \<lfloor>log 2 \<bar>x\<bar>\<rfloor>"

definition quantum :: "real \<Rightarrow> real" where
  "quantum x = 2 powi (max (exponent x) (- 1022) - 52)"

definition fl :: "real \<Rightarrow> number" where
  "fl x =
     (if x = 0 then Finite 0
      else (let r = of_int (round_to_even (x / quantum x)) * quantum x
            in if \<bar>r\<bar> \<ge> 2 ^ 1024 then (if x < 0 then NegInfinity else Infinity)
               else Finite r))"

text \<open>
  \<open>a + b\<close>, \<open>a - b\<close>, \<open>a * b\<close>, \<open>a / b\<close> and \<open>Math.sqrt(a)\<close> on doubles: on finite operands
  the exact result, rounded; with \<open>NaN\<close>, an infinity or a division by zero the result
  is the special value of the exact operation. \<open>Math.sqrt\<close> is taken as the correctly
  rounded square root, which is what the engines compute.
\<close>

definition dbl_add :: "number \<Rightarrow> number \<Rightarrow> number" where
  "dbl_add a b = (case (a, b) of (Finite x, Finite y) \<Rightarrow> fl (x + y) | _ \<Rightarrow> num_add a b)"

definition dbl_sub :: "number \<Rightarrow> number \<Rightarrow> number" where
  "dbl_sub a b = dbl_add a (num_neg b)"

definition dbl_mul :: "number \<Rightarrow> number \<Rightarrow> number" where
  "dbl_mul a b = (case (a, b) of (Finite x, Finite y) \<Rightarrow> fl (x * y) | _ \<Rightarrow> num_mul a b)"

definition dbl_div :: "number \<Rightarrow> number \<Rightarrow> number" where
  "dbl_div a b =
     (case (a, b) of
        (Finite x, Finite y) \<Rightarrow> if y = 0 then num_div a b else fl (x / y)
      | _ \<Rightarrow> num_div a b)"

definition dbl_sqrt :: "number \<Rightarrow> number" where
  "dbl_sqrt a =
     (case a of Finite x \<Rightarrow> if x < 0 then NaN else fl (sqrt x) | _ \<Rightarrow> num_sqrt a)"

section \<open>utils: median, mean, standard deviation\<close>

text \<open>
  \<open>getMedian\<close>: reading \<open>sortedArr[midIndex]\<close> of an empty array gives \<open>undefined\<close>,
  which is \<open>None\<close> here.
\<close>

definition getMedian :: "number list \<Rightarrow> number option" where
  "getMedian array =
     (let sortedArr = sort_key num_key array;
          midIndex = length sortedArr div 2
      in if length sortedArr mod 2 = 0 \<and> length sortedArr > 1
         then Some (num_div (num_add (sortedArr ! (midIndex - 1)) (sortedArr ! midIndex)) (Finite 2))
         else if midIndex < length sortedArr then Some (sortedArr ! midIndex)
         else None)"

text \<open>
  \<open>getMean\<close> and \<open>getStandardDeviation\<close>: \<open>reduce\<close> without a start value begins with
  the first element; the empty array is answered before any arithmetic.
\<close>

definition getMean :: "number list \<Rightarrow> number" where
  "getMean array =
     (case array of
        [] \<Rightarrow> Finite 0
      | x # xs \<Rightarrow> dbl_div (foldl dbl_add x xs) (Finite (real (length array))))"

definition getStandardDeviation :: "number list \<Rightarrow> number" where
  "getStandardDeviation array =
     (case array of
        [] \<Rightarrow> Finite 0
      | x # xs \<Rightarrow>
          (let len = Finite (real (length array));
               mean = dbl_div (foldl dbl_add x xs) len;
               deviations = map (\<lambda>num. dbl_sub num mean) array;
               deviationsSq = map (\<lambda>devi. dbl_mul devi devi) deviations;
               variance = dbl_div (foldl dbl_add (Finite 0) deviationsSq) len
           in dbl_sqrt variance))"

section \<open>Strings\<close>

text \<open>
  A JavaScript string is a sequence of UTF-16 code units; \<open>length\<close> counts code units
  and the patterns below test single code units, so a string is a list of code unit
  values here. \<open>str\<close> embeds an ASCII literal.
\<close>

type_synonym jsstring = "nat list"

definition str :: "string \<Rightarrow> jsstring" where
  "str s = map of_char s"

text \<open>The pattern class \<open>\s\<close>, which is also what \<open>trim\<close> strips.\<close>

definition is_space :: "nat \<Rightarrow> bool" where
  "is_space c =
     (c \<in> {9, 10, 11, 12, 13, 32, 160, 5760, 8232, 8233, 8239, 8287, 12288, 65279}
      \<or> (8192 \<le> c \<and> c \<le> 8202))"

definition is_lower :: "nat \<Rightarrow> bool" where
  "is_lower c = (97 \<le> c \<and> c \<le> 122)"

definition is_upper :: "nat \<Rightarrow> bool" where
  "is_upper c = (65 \<le> c \<and> c \<le> 90)"

definition is_digit :: "nat \<Rightarrow> bool" where
  "is_digit c = (48 \<le> c \<and> c \<le> 57)"

text \<open>The range of accented letters in the patterns, from U+00C0 to U+00FF.\<close>

definition is_accented :: "nat \<Rightarrow> bool" where
  "is_accented c = (192 \<le> c \<and> c \<le> 255)"

definition trim :: "jsstring \<Rightarrow> jsstring" where
  "trim s = rev (dropWhile is_space (rev (dropWhile is_space s)))"

text \<open>
  Matching under the flag \<open>i\<close> compares canonicalized code units. All literals matched
  that way here are ASCII letters, and a code unit outside ASCII never canonicalizes to
  an ASCII one, so upper-casing \<open>a-z\<close> is all that matters.
\<close>

definition canonicalize :: "nat \<Rightarrow> nat" where
  "canonicalize c = (if is_lower c then c - 32 else c)"

definition ci_prefix :: "jsstring \<Rightarrow> jsstring \<Rightarrow> bool" where
  "ci_prefix pat s =
     (length pat \<le> length s \<and> map canonicalize (take (length pat) s) = map canonicalize pat)"

text \<open>\<open>/p1|p2|.../i.test(s)\<close>: one of the literals occurs somewhere in \<open>s\<close>, ignoring case.\<close>

fun regex_test_ci :: "jsstring list \<Rightarrow> jsstring \<Rightarrow> bool" where
  "regex_test_ci pats [] = list_ex (\<lambda>p. ci_prefix p []) pats"
| "regex_test_ci pats (c # r) = (list_ex (\<lambda>p. ci_prefix p (c # r)) pats \<or> regex_test_ci pats r)"

text \<open>
  \<open>path.basename\<close> (POSIX): trailing slashes are dropped, then everything up to the last
  remaining slash.
\<close>

definition basename :: "jsstring \<Rightarrow> jsstring" where
  "basename p = rev (takeWhile (\<lambda>c. c \<noteq> 47) (dropWhile (\<lambda>c. c = 47) (rev p)))"

section \<open>Tokenizer\<close>

record TextContent =
  words :: "jsstring list"
  long_words :: "jsstring list"
  sentences :: "jsstring list"

subsection \<open>Words\<close>

text \<open>
  \<open>WORD_REGEX\<close> is \<^verbatim>\<open>[a-zA-Z{C0}-{FF}0-9]+(?:[.'][a-zA-Z{C0}-{FF}]+)*\<close> with the flag
  \<open>g\<close>, where \<open>{C0}-{FF}\<close> stands for the range of accented letters.
  Both repetitions are greedy and nothing follows them, so a match takes the longest run
  of word characters and then, as long as it can, a period or an apostrophe followed by
  the longest run of letters.
\<close>

definition word_char :: "nat \<Rightarrow> bool" where
  "word_char c = (is_lower c \<or> is_upper c \<or> is_accented c \<or> is_digit c)"

definition word_letter :: "nat \<Rightarrow> bool" where
  "word_letter c = (is_lower c \<or> is_upper c \<or> is_accented c)"

function word_tail :: "jsstring \<Rightarrow> jsstring" where
  "word_tail s =
     (case s of
        p # l # r \<Rightarrow>
          if (p = 46 \<or> p = 39) \<and> word_letter l
          then p # l # takeWhile word_letter r @ word_tail (dropWhile word_letter r)
          else []
      | _ \<Rightarrow> [])"
  by pat_completeness auto
termination
  by (relation "measure length")
     (auto simp: le_imp_less_Suc length_dropWhile_le less_Suc_eq_le le_SucI)

text \<open>
  \<open>text.match(WORD_REGEX)\<close>: all matches from left to right, each search starting where
  the previous match ended. Without a match the result is \<open>null\<close>, which
  \<open>?.filter(...) || []\<close> turns into the empty array.
\<close>

function match_words :: "jsstring \<Rightarrow> jsstring list" where
  "match_words s =
     (case s of
        [] \<Rightarrow> []
      | c # r \<Rightarrow>
          if word_char c
          then (let w = c # takeWhile word_char r @ word_tail (dropWhile word_char r)
                in w # match_words (drop (length w) s))
          else match_words r)"
  by pat_completeness auto
termination
  by (relation "measure length") auto

subsection \<open>Sentences\<close>

text \<open>
  \<open>SENTENCE_REGEX\<close> is built from a template string into which the regular expression
  object \<open>CONSONTANTS\<close> is spliced; an object is spliced as its source between slashes,
  so the pattern that is compiled reads

  \<^verbatim>\<open>(?<!\s(?!pc|wc)[/bcdfghjklmnpqrstvwxzBCDFGHJKLMNPQRSTVWXZ]/]{1,3}\.)(?<=[.!?'"])\s+(?=[^a-z{E0}-{FF}.(])\<close>

  The negative lookbehind therefore asks for: a white space, a character of the class
  (a slash or a consonant) at which neither \<open>pc\<close> nor \<open>wc\<close> starts, a slash, one to
  three closing brackets, and a period. \<open>behind\<close> is the text before the position, last
  character first.
\<close>

definition sentence_end :: "nat \<Rightarrow> bool" where
  "sentence_end c = (c \<in> {46, 33, 63, 39, 34})"

definition consonant_class :: "nat \<Rightarrow> bool" where
  "consonant_class c = (c \<in> set (str ''/bcdfghjklmnpqrstvwxzBCDFGHJKLMNPQRSTVWXZ''))"

definition is_exception :: "jsstring \<Rightarrow> bool" where
  "is_exception s = (take 2 s = str ''pc'' \<or> take 2 s = str ''wc'')"

definition abbreviation_behind :: "jsstring \<Rightarrow> bool" where
  "abbreviation_behind behind =
     (\<exists>n \<in> {1, 2, 3}.
        (case drop n (drop 1 behind) of
           sl # x # w # _ \<Rightarrow>
             take 1 behind = [46] \<and> take n (drop 1 behind) = replicate n 93
             \<and> sl = 47 \<and> consonant_class x \<and> \<not> is_exception [x, sl] \<and> is_space w
         | _ \<Rightarrow> False))"

definition boundary_behind :: "jsstring \<Rightarrow> bool" where
  "boundary_behind behind =
     (\<not> abbreviation_behind behind
      \<and> (case behind of c # _ \<Rightarrow> sentence_end c | [] \<Rightarrow> False))"

definition boundary_ahead :: "jsstring \<Rightarrow> bool" where
  "boundary_ahead s =
     (case s of
        c # _ \<Rightarrow> \<not> (is_lower c \<or> (224 \<le> c \<and> c \<le> 255) \<or> c = 46 \<or> c = 40)
      | [] \<Rightarrow> False)"

text \<open>
  A match of the pattern at the start of \<open>s\<close>: \<open>\s+\<close> first takes the whole run of
  white space and gives characters back one at a time until the lookahead holds. The
  result is the length of the match.
\<close>

definition sentence_match :: "jsstring \<Rightarrow> jsstring \<Rightarrow> nat option" where
  "sentence_match behind s =
     (if boundary_behind behind
      then find (\<lambda>m. boundary_ahead (drop m s)) (rev [1..<Suc (length (takeWhile is_space s))])
      else None)"

text \<open>
  \<open>String.prototype.split\<close> with a pattern: at each position the pattern is tried; a
  match closes the current piece and the search goes on after the match, otherwise the
  position moves on by one. The pattern has no capture group, and it cannot match the
  empty string.
\<close>

function split_loop :: "jsstring \<Rightarrow> jsstring \<Rightarrow> jsstring \<Rightarrow> jsstring list" where
  "split_loop behind piece [] = [rev piece]"
| "split_loop behind piece (c # r) =
     (case sentence_match behind (c # r) of
        Some m \<Rightarrow> rev piece # split_loop (rev (take m (c # r)) @ behind) [] (drop m (c # r))
      | None \<Rightarrow> split_loop (c # behind) (c # piece) r)"
  by pat_completeness auto
termination
proof (relation "measure (\<lambda>(behind, piece, s). length s)", goal_cases)
  case 1
  show ?case by simp
next
  case (2 behind piece c r)
  then show ?case by simp
next
  case (3 behind piece c r m)
  let ?ms = "rev [1..<Suc (length (takeWhile is_space (c # r)))]"
  from 3 have "find (\<lambda>m. boundary_ahead (drop m (c # r))) ?ms = Some m"
    by (simp add: sentence_match_def split: if_splits)
  then obtain i where "i < length ?ms" and "m = ?ms ! i"
    unfolding find_Some_iff by blast
  then have "m \<in> set ?ms"
    using nth_mem by blast
  then have "1 \<le> m"
    by auto
  then show ?case
    by simp
qed

definition split_sentences :: "jsstring \<Rightarrow> jsstring list" where
  "split_sentences s = split_loop [] [] s"

definition extractContentFromText :: "jsstring \<Rightarrow> TextContent" where
  "extractContentFromText text_content =
     (let sentences = filter (\<lambda>s. length (trim s) > 0) (split_sentences (trim text_content));
          words = filter (\<lambda>word. length word > 0) (match_words text_content);
          long_words = filter (\<lambda>word. length word > 6) words
      in \<lparr>words = words, long_words = long_words, sentences = sentences\<rparr>)"

section \<open>Readability scorer\<close>

record TextContentStats =
  word_count :: nat
  long_word_count :: nat
  sentence_count :: nat

definition calculateLixFromStats :: "TextContentStats \<Rightarrow> number" where
  "calculateLixFromStats stats =
     (let sentenceLength =
            num_div (Finite (real (word_count stats))) (Finite (real (sentence_count stats)));
          longWordRatio =
            num_div (num_mul (Finite (real (long_word_count stats))) (Finite 100))
              (Finite (real (word_count stats)));
          lix = num_add sentenceLength longWordRatio
      in toFixed0 lix)"

subsection \<open>In-text LIX search\<close>

text \<open>
  \<open>LIX_REGEX\<close> is \<^verbatim>\<open>(?<![A-Z{C0}-{FF}])LIX\s*\-?(?:TAL)?\:?\s*(\d{1,2})(?!\d?[\-\+])\<close> with the
  flags \<open>gim\<close>. Each part of the pattern is a function from the rest of the input to
  the list of inputs it can leave behind, in the order in which backtracking tries them.
\<close>

definition greedy_spaces :: "jsstring \<Rightarrow> jsstring list" where
  "greedy_spaces s = map (\<lambda>k. drop k s) (rev [0..<Suc (length (takeWhile is_space s))])"

definition opt_char :: "nat \<Rightarrow> jsstring \<Rightarrow> jsstring list" where
  "opt_char c s = (case s of x # r \<Rightarrow> if x = c then [r, s] else [s] | [] \<Rightarrow> [s])"

definition opt_literal_ci :: "jsstring \<Rightarrow> jsstring \<Rightarrow> jsstring list" where
  "opt_literal_ci lit s = (if ci_prefix lit s then [drop (length lit) s, s] else [s])"

text \<open>\<open>(\d{1,2})\<close>: two digits if there are two, then one; with the captured digits.\<close>

definition digits_1_2 :: "jsstring \<Rightarrow> (jsstring \<times> jsstring) list" where
  "digits_1_2 s =
     (case s of
        d1 # r \<Rightarrow>
          if is_digit d1
          then (case r of
                  d2 # r2 \<Rightarrow> if is_digit d2 then [([d1, d2], r2), ([d1], r)] else [([d1], r)]
                | [] \<Rightarrow> [([d1], r)])
          else []
      | [] \<Rightarrow> [])"

definition is_sign :: "nat \<Rightarrow> bool" where
  "is_sign c = (c = 45 \<or> c = 43)"

text \<open>The negative lookahead \<open>(?!\d?[\-\+])\<close>.\<close>

definition no_sign_ahead :: "jsstring \<Rightarrow> bool" where
  "no_sign_ahead s =
     (case s of
        x # r \<Rightarrow>
          \<not> ((is_digit x \<and> (case r of y # _ \<Rightarrow> is_sign y | [] \<Rightarrow> False)) \<or> is_sign x)
      | [] \<Rightarrow> True)"

text \<open>
  Under the flag \<open>i\<close> the class \<open>[A-Z{C0}-{FF}]\<close> of the lookbehind also holds the
  lower-case ASCII letters and U+0178, the upper-case form of U+00FF.
\<close>

definition lix_letter_behind :: "nat \<Rightarrow> bool" where
  "lix_letter_behind c = (is_upper c \<or> is_lower c \<or> is_accented c \<or> c = 376)"

text \<open>The captures of the matches that start at the head of \<open>s\<close>, first choice first.\<close>

definition lix_match_here :: "jsstring \<Rightarrow> jsstring list" where
  "lix_match_here s =
     (if ci_prefix (str ''LIX'') s
      then List.maps (\<lambda>s1.
             List.maps (\<lambda>s2.
               List.maps (\<lambda>s3.
                 List.maps (\<lambda>s4.
                   List.maps (\<lambda>s5.
                     map fst (filter (\<lambda>(digits, s6). no_sign_ahead s6) (digits_1_2 s5)))
                   (greedy_spaces s4))
                 (opt_char 58 s3))
               (opt_literal_ci (str ''TAL'') s2))
             (opt_char 45 s1))
           (greedy_spaces (drop 3 s))
      else [])"

text \<open>
  \<open>LIX_REGEX.exec(text)\<close> on a fresh pattern: the first position from the left at which
  the pattern matches, with the first match there. \<open>prev\<close> is the character before the
  position, if any.
\<close>

fun lix_exec :: "nat option \<Rightarrow> jsstring \<Rightarrow> jsstring option" where
  "lix_exec prev s =
     (case (if (case prev of Some c \<Rightarrow> lix_letter_behind c | None \<Rightarrow> False) then []
            else lix_match_here s) of
        digits # _ \<Rightarrow> Some digits
      | [] \<Rightarrow> (case s of [] \<Rightarrow> None | c # r \<Rightarrow> lix_exec (Some c) r))"

text \<open>\<open>parseInt\<close> of a string of decimal digits.\<close>

definition parseInt :: "jsstring \<Rightarrow> nat" where
  "parseInt digits = foldl (\<lambda>n d. 10 * n + (d - 48)) 0 digits"

definition searchForLixInText :: "jsstring \<Rightarrow> number option" where
  "searchForLixInText text_content =
     map_option (\<lambda>digits. Finite (real (parseInt digits))) (lix_exec None text_content)"

section \<open>Errors\<close>

text \<open>
  The code has one class of errors, \<open>Error\<close>, raised with a message that names the
  function; each function catches what is thrown inside it and throws its own error.
  \<open>TypeError\<close> is what reading a property of \<open>undefined\<close> throws.
\<close>

datatype error =
    TypeError
  | Error_extractItemPathsFromManifest
  | Error_extractItemsFromSpine
  | Error_getSpineItemStats

section \<open>Outlier filter\<close>

record SpineItemContent = TextContent +
  title :: jsstring
  generated_lix :: number

text \<open>\<open>sortedArr.splice(i, 1)\<close>.\<close>

definition splice1 :: "nat \<Rightarrow> 'a list \<Rightarrow> 'a list" where
  "splice1 i xs = take i xs @ drop (Suc i) xs"

text \<open>
  The loop of \<open>filterItemsUsingStandardDeviation\<close>, from index \<open>i\<close> on. Its body makes
  two tests in a row, each followed by \<open>splice\<close> and \<open>i--\<close>, and the second test reads
  \<open>sortedArr[i]\<close> again after the first may have changed \<open>i\<close>. When the first test
  removes the element at index \<open>0\<close>, the second reads \<open>sortedArr[-1]\<close>, which is
  \<open>undefined\<close>: the \<open>TypeError\<close> is caught and the array is returned as it is then.
\<close>

function filter_loop ::
  "number \<Rightarrow> number \<Rightarrow> nat \<Rightarrow> SpineItemContent list \<Rightarrow> SpineItemContent list" where
  "filter_loop upperBound lowerBound i sortedArr =
     (if i < length sortedArr
      then (if num_greater (generated_lix (sortedArr ! i)) upperBound
            then (case i of
                    0 \<Rightarrow> splice1 i sortedArr
                  | Suc j \<Rightarrow>
                      if num_less (generated_lix (splice1 i sortedArr ! j)) lowerBound
                      then filter_loop upperBound lowerBound j (splice1 j (splice1 i sortedArr))
                      else filter_loop upperBound lowerBound (Suc j) (splice1 i sortedArr))
            else if num_less (generated_lix (sortedArr ! i)) lowerBound
                 then filter_loop upperBound lowerBound i (splice1 i sortedArr)
                 else filter_loop upperBound lowerBound (Suc i) sortedArr)
      else sortedArr)"
  by pat_completeness auto
termination
  by (relation "measure (\<lambda>(upperBound, lowerBound, i, sortedArr). length sortedArr - i)")
     (auto simp: splice1_def)

text \<open>
  \<open>sortedArr[midIndex].generated_lix\<close> is read before the \<open>try\<close> block: on the empty
  array the function throws. \<open>Number(x.toPrecision())\<close> is \<open>x\<close>: a double printed with
  as many digits as it needs and read back. The centre of the bounds is the element at
  \<open>midIndex\<close>; \<open>getMedian\<close> is not called.
\<close>

definition filterItemsUsingStandardDeviation ::
  "SpineItemContent list \<Rightarrow> number \<Rightarrow> error + SpineItemContent list" where
  "filterItemsUsingStandardDeviation items maxStdDev =
     (let sortedArr = sort_key (\<lambda>item. num_key (generated_lix item)) items;
          midIndex = length sortedArr div 2
      in if midIndex < length sortedArr
         then (let midValue = generated_lix (sortedArr ! midIndex);
                   stdDev = getStandardDeviation
                     (map (\<lambda>item. toFixed0 (generated_lix item)) sortedArr);
                   upperBound = dbl_add midValue stdDev;
                   lowerBound = dbl_sub midValue stdDev
               in if num_greater stdDev maxStdDev
                  then Inr (filter_loop upperBound lowerBound 0 sortedArr)
                  else Inr sortedArr)
         else Inl TypeError)"

text \<open>What neither test of the loop removes.\<close>

definition within_bounds :: "number \<Rightarrow> number \<Rightarrow> SpineItemContent \<Rightarrow> bool" where
  "within_bounds upperBound lowerBound item =
     (\<not> num_greater (generated_lix item) upperBound \<and> \<not> num_less (generated_lix item) lowerBound)"

text \<open>
  The outlier filter as the specification words it, for comparison: the bounds are the
  median of the scores, computed by \<open>getMedian\<close>, plus and minus the standard deviation,
  and one pass keeps what lies within them.
\<close>

definition spec_outlier_filter :: "SpineItemContent list \<Rightarrow> number \<Rightarrow> SpineItemContent list" where
  "spec_outlier_filter items cap =
     (let sorted_items = sort_key (\<lambda>item. num_key (generated_lix item)) items;
          stdDev = getStandardDeviation (map (\<lambda>item. toFixed0 (generated_lix item)) sorted_items)
      in case getMedian (map generated_lix items) of
           None \<Rightarrow> sorted_items
         | Some median \<Rightarrow>
             if num_greater stdDev cap
             then filter (\<lambda>item. \<not> (num_greater (generated_lix item) (dbl_add median stdDev)
                                   \<or> num_less (generated_lix item) (dbl_sub median stdDev)))
                    sorted_items
             else sorted_items)"

text \<open>
  The population standard deviation as the specification words it, for comparison: the
  square root of the mean squared distance from the mean, as a real number.
\<close>

definition population_standard_deviation :: "real list \<Rightarrow> real" where
  "population_standard_deviation rs =
     (let mean = sum_list rs / real (length rs)
      in sqrt (sum_list (map (\<lambda>r. (r - mean) * (r - mean)) rs) / real (length rs)))"

section \<open>Container resolver: the manifest\<close>

text \<open>
  An entry of \<open>opfJson.package.manifest[0].item\<close> as the XML parser delivers it: its
  attributes \<open>$\<close>, each of which may be absent. An entry without any attribute has no
  \<open>$\<close> (\<open>None\<close> in the list below), and a manifest without entries has no \<open>item\<close> array
  (\<open>None\<close> for the list); reading a property of either throws.
\<close>

record ManifestItem =
  href :: "jsstring option"
  media_type :: "jsstring option"

text \<open>Every array is truthy, the empty one too.\<close>

definition array_truthy :: "'a list \<Rightarrow> bool" where
  "array_truthy xs = True"

text \<open>A template string prints an absent value as \<open>undefined\<close>.\<close>

definition template_value :: "jsstring option \<Rightarrow> jsstring" where
  "template_value v = (case v of Some s \<Rightarrow> s | None \<Rightarrow> str ''undefined'')"

definition extractItemPathsFromManifest ::
  "ManifestItem option list option \<Rightarrow> jsstring \<Rightarrow> error + jsstring list" where
  "extractItemPathsFromManifest manifest opfRoot =
     (case manifest of
        None \<Rightarrow> Inl Error_extractItemPathsFromManifest
      | Some entries \<Rightarrow>
          (case those entries of
             None \<Rightarrow> Inl Error_extractItemPathsFromManifest
           | Some manifest_items \<Rightarrow>
               (let htmlItemPaths =
                      map (\<lambda>item.
                             if length opfRoot > 1
                             then opfRoot @ str ''/'' @ template_value (href item)
                             else template_value (href item))
                        (filter (\<lambda>item. media_type item = Some (str ''application/xhtml+xml''))
                           manifest_items)
                in if \<not> array_truthy htmlItemPaths
                   then Inl Error_extractItemPathsFromManifest
                   else Inr htmlItemPaths)))"

section \<open>Content items and their statistics\<close>

text \<open>The field \<open>text\<close> of a \<open>SpineItem\<close> is \<open>item_text\<close> here.\<close>

record SpineItem =
  path :: jsstring
  item_text :: jsstring

text \<open>
  \<open>extractItemsFromSpine\<close> reads each path from the archive, parses the markup and cleans
  the text; all of that is the work of libraries and is the parameter \<open>load\<close> here: the
  text obtained for a path, empty when the entry is missing or cannot be parsed. What the
  function itself decides is modelled: items without text are dropped, and an empty result
  is an error.
\<close>

definition extractItemsFromSpine ::
  "(jsstring \<Rightarrow> jsstring) \<Rightarrow> jsstring list \<Rightarrow> error + SpineItem list" where
  "extractItemsFromSpine load spineItemPaths =
     (let spineItems =
            filter (\<lambda>item. item_text item \<noteq> [])
              (map (\<lambda>spineItemPath. \<lparr>path = spineItemPath, item_text = load spineItemPath\<rparr>)
                 spineItemPaths)
      in if length spineItems = 0 then Inl Error_extractItemsFromSpine else Inr spineItems)"

text \<open>
  \<open>SpineItemStats\<close> has the fields \<open>title\<close> and \<open>generated_lix\<close> too; they are
  \<open>stats_title\<close> and \<open>stats_generated_lix\<close> here, apart from those of \<open>SpineItemContent\<close>.
\<close>

record SpineItemStats = TextContentStats +
  stats_title :: jsstring
  stats_generated_lix :: number

definition CHAPTER_REGEX :: "jsstring list" where
  "CHAPTER_REGEX = [str ''chapter'', str ''kapitel'']"

definition STANDARD_DEVIATION_FACTOR :: number where
  "STANDARD_DEVIATION_FACTOR = Finite 6"

text \<open>The steps of \<open>getSpineItemStats\<close>, one definition for each local constant.\<close>

definition chapters :: "SpineItem list \<Rightarrow> SpineItem list" where
  "chapters spineItems = filter (\<lambda>item. regex_test_ci CHAPTER_REGEX (path item)) spineItems"

definition contentItems :: "SpineItem list \<Rightarrow> SpineItem list" where
  "contentItems spineItems =
     (if length (chapters spineItems) > 0 then chapters spineItems else spineItems)"

definition content_stats :: "'a TextContent_scheme \<Rightarrow> TextContentStats" where
  "content_stats c =
     \<lparr>word_count = length (words c), long_word_count = length (long_words c),
      sentence_count = length (sentences c)\<rparr>"

definition spineItemContent :: "SpineItem \<Rightarrow> SpineItemContent" where
  "spineItemContent item =
     (let c = extractContentFromText (item_text item);
          generated_lix = calculateLixFromStats (content_stats c)
      in \<lparr>words = words c, long_words = long_words c, sentences = sentences c,
          title = basename (path item), generated_lix = generated_lix\<rparr>)"

definition filteredSpineItemContent :: "SpineItem list \<Rightarrow> SpineItemContent list" where
  "filteredSpineItemContent spineItems =
     filter (\<lambda>item. truthy (generated_lix item)) (map spineItemContent (contentItems spineItems))"

definition spineItemStats :: "SpineItemContent \<Rightarrow> SpineItemStats" where
  "spineItemStats item =
     \<lparr>word_count = length (words item), long_word_count = length (long_words item),
      sentence_count = length (sentences item),
      stats_title = title item, stats_generated_lix = generated_lix item\<rparr>"

text \<open>
  The final sort compares titles with \<open>localeCompare\<close> (numeric, base sensitivity), a
  collation of the platform: the parameter \<open>collate\<close> maps a title to its rank in that
  collation.
\<close>

definition getSpineItemStats ::
  "(jsstring \<Rightarrow> 'k::linorder) \<Rightarrow> SpineItem list \<Rightarrow> error + SpineItemStats list" where
  "getSpineItemStats collate spineItems =
     (case filterItemsUsingStandardDeviation (filteredSpineItemContent spineItems)
             STANDARD_DEVIATION_FACTOR of
        Inl e \<Rightarrow> Inl Error_getSpineItemStats
      | Inr filteredSpineItems \<Rightarrow>
          Inr (sort_key (\<lambda>item. collate (stats_title item)) (map spineItemStats filteredSpineItems)))"

definition getTotalStats :: "SpineItemStats list \<Rightarrow> TextContentStats" where
  "getTotalStats stat_items =
     foldl (\<lambda>prev curr.
              \<lparr>word_count = word_count prev + word_count curr,
               long_word_count = long_word_count prev + long_word_count curr,
               sentence_count = sentence_count prev + sentence_count curr\<rparr>)
       \<lparr>word_count = 0, long_word_count = 0, sentence_count = 0\<rparr> stat_items"

section \<open>Searching the items for a printed LIX\<close>

definition COLOPHON_REGEX :: "jsstring list" where
  "COLOPHON_REGEX = [str ''colophon'', str ''kolofon'']"

text \<open>The loop over all items: the first result that is truthy.\<close>

fun search_items :: "SpineItem list \<Rightarrow> number option" where
  "search_items [] = None"
| "search_items (item # rest) =
     (case searchForLixInText (item_text item) of
        Some result \<Rightarrow> if truthy result then Some result else search_items rest
      | None \<Rightarrow> search_items rest)"

definition searchForLixInItems :: "SpineItem list \<Rightarrow> number option" where
  "searchForLixInItems spineItems =
     (case find (\<lambda>item. regex_test_ci COLOPHON_REGEX (path item)) spineItems of
        Some colophon \<Rightarrow>
          (case searchForLixInText (item_text colophon) of
             Some result \<Rightarrow> if truthy result then Some result else search_items spineItems
           | None \<Rightarrow> search_items spineItems)
      | None \<Rightarrow> search_items spineItems)"

section \<open>The analysis\<close>

record AnalysisStats = TextContentStats +
  lix_found :: "number option"
  lix_median :: "number option"
  lix_generated :: number

record Analysis =
  file_bytes :: nat
  lix :: number
  stats :: AnalysisStats
  items :: "SpineItemStats list"

text \<open>\<open>a ?? b\<close>: \<open>b\<close> when \<open>a\<close> is \<open>null\<close> or \<open>undefined\<close>.\<close>

definition nullish :: "'a option \<Rightarrow> 'a \<Rightarrow> 'a" where
  "nullish a b = (case a of Some v \<Rightarrow> v | None \<Rightarrow> b)"

text \<open>
  \<open>analyzeEpub\<close> from the point where the archive is open and the package document is
  parsed: \<open>manifest\<close> and \<open>opfRoot\<close> are what \<open>loadOpfJson\<close> and \<open>path.dirname\<close> deliver,
  \<open>fileBytes\<close> is the size of the regenerated archive. \<open>analyzeSpineItems\<close> is the part
  after the extraction of the items.
\<close>

definition analyzeSpineItems ::
  "(jsstring \<Rightarrow> 'k::linorder) \<Rightarrow> nat \<Rightarrow> SpineItem list \<Rightarrow> error + Analysis" where
  "analyzeSpineItems collate fileBytes spineItems =
     (case getSpineItemStats collate spineItems of
        Inl e \<Rightarrow> Inl e
      | Inr stat_items \<Rightarrow>
          (let totalStats = getTotalStats stat_items;
               lixValues = map stats_generated_lix stat_items;
               lixMedian = getMedian lixValues;
               lixGenerated = calculateLixFromStats totalStats;
               lixFound = searchForLixInItems spineItems
           in Inr \<lparr>file_bytes = fileBytes,
                   lix = nullish lixFound (nullish lixMedian lixGenerated),
                   stats = \<lparr>word_count = word_count totalStats,
                            long_word_count = long_word_count totalStats,
                            sentence_count = sentence_count totalStats,
                            lix_found = lixFound, lix_median = lixMedian,
                            lix_generated = lixGenerated\<rparr>,
                   items = stat_items\<rparr>))"

definition analyzeEpub ::
  "(jsstring \<Rightarrow> 'k::linorder) \<Rightarrow> (jsstring \<Rightarrow> jsstring) \<Rightarrow> nat
     \<Rightarrow> ManifestItem option list option \<Rightarrow> jsstring \<Rightarrow> error + Analysis" where
  "analyzeEpub collate load fileBytes manifest opfRoot =
     (case extractItemPathsFromManifest manifest opfRoot of
        Inl e \<Rightarrow> Inl e
      | Inr spineItemPaths \<Rightarrow>
          (case extractItemsFromSpine load spineItemPaths of
             Inl e \<Rightarrow> Inl e
           | Inr spineItems \<Rightarrow> analyzeSpineItems collate fileBytes spineItems))"

text \<open>
  The statistics of a report: the items, the totals, the generated score and the median.
\<close>

definition report_statistics ::
  "Analysis \<Rightarrow> SpineItemStats list \<times> nat \<times> nat \<times> nat \<times> number \<times> number option" where
  "report_statistics a =
     (items a, word_count (stats a), long_word_count (stats a), sentence_count (stats a),
      lix_generated (stats a), lix_median (stats a))"

section \<open>Example inputs\<close>

text \<open>Concrete inputs on which the theorems below are instantiated.\<close>

definition demo_item :: "real \<Rightarrow> SpineItemContent" where
  "demo_item r =
     \<lparr>words = [], long_words = [], sentences = [], title = [], generated_lix = Finite r\<rparr>"

definition demo_manifest :: "ManifestItem option list option" where
  "demo_manifest =
     Some [Some \<lparr>href = Some (str ''chapter1.xhtml''),
                 media_type = Some (str ''application/xhtml+xml'')\<rparr>,
           Some \<lparr>href = Some (str ''style.css''), media_type = Some (str ''text/css'')\<rparr>]"

definition demo_manifest2 :: "ManifestItem option list option" where
  "demo_manifest2 =
     Some [Some \<lparr>href = Some (str ''chapter1.xhtml''),
                 media_type = Some (str ''application/xhtml+xml'')\<rparr>,
           Some \<lparr>href = Some (str ''chapter2.xhtml''),
                 media_type = Some (str ''application/xhtml+xml'')\<rparr>]"

definition demo_load2 :: "jsstring \<Rightarrow> jsstring" where
  "demo_load2 p =
     (if p = str ''chapter1.xhtml'' then str ''Hello world. Fine.''
      else str ''One two three four five six seven eight.'')"

definition demo_items :: "SpineItem list" where
  "demo_items =
     [\<lparr>path = str ''chapter1.xhtml'', item_text = str ''Hello world. Fine.''\<rparr>,
      \<lparr>path = str ''chapter2.xhtml'',
       item_text = str ''One two three four five six seven eight.''\<rparr>]"

definition demo_cover :: SpineItem where
  "demo_cover = \<lparr>path = str ''cover.xhtml'', item_text = str ''A long unread cover.''\<rparr>"

section \<open>Evaluation\<close>

text \<open>
  The recursive equations are unfolded on demand only. The collections below are what
  the simplifier needs to run the tokenizer and the search on a concrete string.
\<close>

declare word_tail.simps [simp del]
declare match_words.simps [simp del]
declare split_loop.simps [simp del]
declare filter_loop.simps [simp del]
declare lix_exec.simps [simp del]

lemmas char_class_defs =
  is_space_def is_lower_def is_upper_def is_digit_def is_accented_def word_char_def
  word_letter_def sentence_end_def is_sign_def lix_letter_behind_def canonicalize_def

lemmas tokenizer_defs =
  extractContentFromText_def split_sentences_def split_loop.simps sentence_match_def
  boundary_behind_def boundary_ahead_def abbreviation_behind_def consonant_class_def
  is_exception_def match_words.simps word_tail.simps trim_def

lemmas lix_search_defs =
  searchForLixInText_def lix_exec.simps lix_match_here_def ci_prefix_def
  greedy_spaces_def opt_char_def opt_literal_ci_def digits_1_2_def no_sign_ahead_def
  parseInt_def

section \<open>Properties of the median\<close>






section \<open>Properties of the tokenizer\<close>

text \<open>
  C10. For every input text, every long word is longer than 6 code units, the long words
  are the words filtered by that test (so they are a subsequence of the words, each with
  the multiplicity it has among the words), and there are at most as many long words as
  words.
\<close>

theorem long_words_filter:
  "(\<forall>w \<in> set (long_words (extractContentFromText t)). length w > 6)
   \<and> long_words (extractContentFromText t)
       = filter (\<lambda>w. length w > 6) (words (extractContentFromText t))
   \<and> subseq (long_words (extractContentFromText t)) (words (extractContentFromText t))
   \<and> (\<forall>w. count (mset (long_words (extractContentFromText t))) w
          = (if length w > 6 then count (mset (words (extractContentFromText t))) w else 0))
   \<and> length (long_words (extractContentFromText t)) \<le> length (words (extractContentFromText t))"
proof -
  let ?c = "extractContentFromText t"
  have lw: "long_words ?c = filter (\<lambda>w. length w > 6) (words ?c)"
    by (simp add: extractContentFromText_def Let_def)
  have "\<forall>w \<in> set (long_words ?c). length w > 6"
    unfolding lw by simp
  moreover have "subseq (long_words ?c) (words ?c)"
    unfolding lw by (rule subseq_filter_left)
  moreover have "\<forall>w. count (mset (long_words ?c)) w
      = (if length w > 6 then count (mset (words ?c)) w else 0)"
    unfolding lw by simp
  moreover have "length (long_words ?c) \<le> length (words ?c)"
    unfolding lw by (rule length_filter_le)
  ultimately show ?thesis
    using lw by blast
qed

theorem long_words_filter_witness:
  "long_words (extractContentFromText (str ''An elephant sat.'')) = [str ''elephant'']
   \<and> words (extractContentFromText (str ''An elephant sat.''))
       = [str ''An'', str ''elephant'', str ''sat'']
   \<and> subseq (long_words (extractContentFromText (str ''An elephant sat.'')))
        (words (extractContentFromText (str ''An elephant sat.'')))"
proof -
  have w: "words (extractContentFromText (str ''An elephant sat.''))
      = [str ''An'', str ''elephant'', str ''sat'']"
    by (simp add: str_def extractContentFromText_def match_words.simps word_tail.simps
        char_class_defs Let_def)
  show ?thesis
    using long_words_filter [of "str ''An elephant sat.''"] w
    by (simp add: str_def)
qed

text \<open>
  A text without a sentence is blank, and a blank text has no word. The first piece of
  the split starts with the first character of the trimmed text, so it is not blank
  unless the text is.
\<close>

lemma split_loop_first_piece:
  "\<exists>p pieces. split_loop behind piece s = (rev piece @ p) # pieces"
proof (induction behind piece s rule: split_loop.induct)
  case (1 behind piece)
  show ?case by (simp add: split_loop.simps)
next
  case (2 behind piece c r)
  show ?case
  proof (cases "sentence_match behind (c # r)")
    case None
    from 2(1) [OF None] obtain p pieces
      where "split_loop (c # behind) (c # piece) r = (rev (c # piece) @ p) # pieces"
      by blast
    with None show ?thesis
      by (simp add: split_loop.simps)
  next
    case (Some m)
    then show ?thesis
      by (simp add: split_loop.simps)
  qed
qed

lemma split_sentences_head:
  "\<exists>p pieces. split_sentences (c # r) = (c # p) # pieces"
proof -
  have "sentence_match [] (c # r) = None"
    by (simp add: sentence_match_def boundary_behind_def)
  then have "split_sentences (c # r) = split_loop [c] [c] r"
    by (simp add: split_sentences_def split_loop.simps)
  then show ?thesis
    using split_loop_first_piece [of "[c]" "[c]" r] by simp
qed

lemma trim_Nil_iff: "trim s = [] \<longleftrightarrow> (\<forall>c \<in> set s. is_space c)"
proof
  assume "trim s = []"
  then have all: "\<forall>c \<in> set (dropWhile is_space s). is_space c"
    by (simp add: trim_def)
  have "dropWhile is_space s = []"
  proof (rule ccontr)
    assume ne: "dropWhile is_space s \<noteq> []"
    then have "\<not> is_space (hd (dropWhile is_space s))"
      by (rule hd_dropWhile)
    moreover from ne have "hd (dropWhile is_space s) \<in> set (dropWhile is_space s)"
      by simp
    ultimately show False
      using all by blast
  qed
  then show "\<forall>c \<in> set s. is_space c"
    by simp
next
  assume all: "\<forall>c \<in> set s. is_space c"
  then have d: "dropWhile is_space s = []"
    by simp
  show "trim s = []"
    by (simp only: trim_def d rev.simps dropWhile.simps)
qed

lemma trim_head: "trim s \<noteq> [] \<Longrightarrow> \<not> is_space (hd (trim s))"
proof -
  assume ne: "trim s \<noteq> []"
  let ?u = "dropWhile is_space s"
  from ne have u: "?u \<noteq> []"
    using trim_Nil_iff [of s] by simp
  then have hd: "\<not> is_space (hd ?u)"
    by (rule hd_dropWhile)
  have "suffix (dropWhile is_space (rev ?u)) (rev ?u)"
    by (rule suffix_dropWhile)
  then have "prefix (trim s) ?u"
    by (simp add: trim_def suffix_to_prefix)
  with ne have "hd (trim s) = hd ?u"
    by (auto simp: prefix_def)
  with hd show ?thesis by simp
qed

lemma trim_cons_nonblank: "\<not> is_space c \<Longrightarrow> trim (c # p) \<noteq> []"
  by (simp add: trim_Nil_iff)

lemma sentences_Nil_blank:
  assumes "sentences (extractContentFromText t) = []"
  shows "\<forall>c \<in> set t. is_space c"
proof (rule ccontr)
  assume "\<not> (\<forall>c \<in> set t. is_space c)"
  then have ne: "trim t \<noteq> []"
    by (simp add: trim_Nil_iff)
  then obtain c r where cr: "trim t = c # r"
    by (cases "trim t") auto
  with trim_head [OF ne] have c: "\<not> is_space c"
    by simp
  obtain p pieces where "split_sentences (c # r) = (c # p) # pieces"
    using split_sentences_head by blast
  with cr c assms show False
    by (simp add: extractContentFromText_def Let_def trim_cons_nonblank)
qed

lemma match_words_no_word_char:
  "\<forall>c \<in> set s. \<not> word_char c \<Longrightarrow> match_words s = []"
  by (induction s) (simp_all add: match_words.simps)

lemma space_not_word_char: "is_space c \<Longrightarrow> \<not> word_char c"
  by (auto simp: char_class_defs)

lemma no_sentences_no_words:
  assumes "sentences (extractContentFromText t) = []"
  shows "words (extractContentFromText t) = []"
proof -
  have "\<forall>c \<in> set t. \<not> word_char c"
    using sentences_Nil_blank [OF assms] space_not_word_char by blast
  then show ?thesis
    by (simp add: extractContentFromText_def match_words_no_word_char Let_def)
qed

lemma no_words_lix_NaN:
  assumes "words (extractContentFromText t) = []"
  shows "calculateLixFromStats (content_stats (extractContentFromText t)) = NaN"
proof -
  have "long_words (extractContentFromText t) = []"
    using assms by (simp add: extractContentFromText_def Let_def)
  with assms show ?thesis
    by (cases "sentences (extractContentFromText t) = []")
       (simp_all add: calculateLixFromStats_def content_stats_def Let_def)
qed

text \<open>
  C5, as the code has it. For the text \<open>Mr. Smith went home. He left.\<close> the word list is
  \<open>Mr\<close>, \<open>Smith\<close>, \<open>went\<close>, \<open>home\<close>, \<open>He\<close>, \<open>left\<close>: a word match takes a period only
  when a letter follows it, so the token is \<open>Mr\<close>, distinct from \<open>Smith\<close>, and no word is
  long.
\<close>

theorem tokenizer_mr_smith:
  "words (extractContentFromText (str ''Mr. Smith went home. He left.'')) =
     [str ''Mr'', str ''Smith'', str ''went'', str ''home'', str ''He'', str ''left'']
   \<and> long_words (extractContentFromText (str ''Mr. Smith went home. He left.'')) = []"
  by (simp add: str_def tokenizer_defs char_class_defs Let_def)

text \<open>The claim as stated fails: \<open>Mr.\<close>, with its period, is not in the word list.\<close>

theorem tokenizer_mr_smith_counterexample:
  "str ''Mr.'' \<notin> set (words (extractContentFromText (str ''Mr. Smith went home. He left.'')))"
  by (simp add: str_def tokenizer_defs char_class_defs Let_def)

text \<open>
  The sentences of that text. The lookbehind that is to keep a consonant abbreviation
  from ending a sentence is compiled with the slashes of the spliced expression in it:
  it asks for a white space, one character of the class, a slash, one to three closing
  brackets and a period, which no abbreviation is. The text is split after \<open>Mr.\<close>, at the
  start of a text and inside one.
\<close>

lemma abbreviation_split:
  "sentences (extractContentFromText (str ''Mr. Smith went home. He left.''))
     = [str ''Mr.'', str ''Smith went home.'', str ''He left.'']"
  "sentences (extractContentFromText (str ''He met Mr. Smith today. Bye.''))
     = [str ''He met Mr.'', str ''Smith today.'', str ''Bye.'']"
  by (simp_all add: str_def tokenizer_defs char_class_defs Let_def)

section \<open>Properties of the in-text LIX search\<close>

text \<open>
  C6, as the code has it. The search returns 42 on \<open>Forfatterens LIX-tal: 42.\<close> and 14 on
  \<open>LIX142\<close>: the lookahead rejects captured digits only when a sign follows them, directly
  or after one more digit, and in \<open>LIX142\<close> the digits \<open>14\<close> are followed by \<open>2\<close> and the end
  of the text.
\<close>

theorem searchForLixInText_examples:
  "searchForLixInText (str ''Forfatterens LIX-tal: 42.'') = Some (Finite 42)
   \<and> searchForLixInText (str ''LIX142'') = Some (Finite 14)"
  by (simp add: str_def lix_search_defs char_class_defs)

text \<open>The claim as stated fails: on \<open>LIX142\<close> there is a match.\<close>

theorem searchForLixInText_counterexample:
  "\<not> (searchForLixInText (str ''Forfatterens LIX-tal: 42.'') = Some (Finite 42)
      \<and> searchForLixInText (str ''LIX142'') = None)"
  by (simp add: str_def lix_search_defs char_class_defs)

section \<open>Properties of the manifest step\<close>

text \<open>
  C8. A manifest whose only entry is a style sheet has no entry of the markup type, and
  \<open>extractItemPathsFromManifest\<close> returns the empty list of paths instead of failing: the
  guard \<open>!htmlItemPaths\<close> tests an array, which is always truthy.
\<close>

theorem manifest_without_html:
  "extractItemPathsFromManifest
     (Some [Some \<lparr>href = Some (str ''style.css''), media_type = Some (str ''text/css'')\<rparr>])
     (str ''OEBPS'') = Inr []"
  by (simp add: extractItemPathsFromManifest_def array_truthy_def str_def)

text \<open>
  The same for every manifest whose entries all have attributes: without an entry of the
  markup type the step succeeds with no path. The run then fails one step later, in
  \<open>extractItemsFromSpine\<close>.
\<close>

lemma no_markup_entries_no_paths:
  assumes "those entries = Some manifest_items"
    and "\<forall>item \<in> set manifest_items. media_type item \<noteq> Some (str ''application/xhtml+xml'')"
  shows "extractItemPathsFromManifest (Some entries) opfRoot = Inr []"
proof -
  have "filter (\<lambda>item. media_type item = Some (str ''application/xhtml+xml'')) manifest_items = []"
    using assms(2) by (simp add: filter_empty_conv)
  then show ?thesis
    using assms(1) by (simp add: extractItemPathsFromManifest_def array_truthy_def)
qed

lemma no_paths_fail_later:
  "extractItemsFromSpine load [] = Inl Error_extractItemsFromSpine"
  by (simp add: extractItemsFromSpine_def)

section \<open>Properties of the outlier filter\<close>

subsection \<open>Rounding to a double\<close>

text \<open>
  How \<open>fl\<close> is evaluated: once the binary exponent \<open>e\<close> of the exact result is known, the
  double is the nearest multiple of \<open>2^(e - 52)\<close>. Every integer below \<open>2^53\<close> in magnitude
  is a double. For a square root the double \<open>c\<close> is confirmed by squaring the two midpoints
  next to it.
\<close>

lemma exponent_eqI:
  assumes "2 powi e \<le> \<bar>x\<bar>" and "\<bar>x\<bar> < 2 powi (e + 1)"
  shows "exponent x = e"
proof -
  have "0 < (2::real) powi e"
    by simp
  with assms(1) have pos: "0 < \<bar>x\<bar>"
    by linarith
  have a: "(2::real) powr (of_int e) = 2 powi e"
    by (rule powr_real_of_int') simp_all
  have "(2::real) powr (of_int (e + 1)) = 2 powi (e + 1)"
    by (rule powr_real_of_int') simp_all
  then have b: "(2::real) powr (of_int e + 1) = 2 powi (e + 1)"
    by simp
  have "(2::real) powr (of_int e) \<le> \<bar>x\<bar> \<and> \<bar>x\<bar> < 2 powr (of_int e + 1)"
    unfolding a b using assms by simp
  then show ?thesis
    unfolding exponent_def using pos by (simp add: floor_log_eq_powr_iff)
qed

lemma round_to_even_int [simp]: "round_to_even (of_int n) = n"
  by (simp add: round_to_even_def)

lemma round_to_even_cases: "round_to_even x = \<lfloor>x\<rfloor> \<or> round_to_even x = \<lfloor>x\<rfloor> + 1"
  by (simp add: round_to_even_def)

lemma round_to_even_eqI:
  assumes "of_int n - 1 / 2 < x" and "x < of_int n + 1 / 2"
  shows "round_to_even x = n"
proof (cases "x < of_int n")
  case True
  with assms(1) have f: "\<lfloor>x\<rfloor> = n - 1"
    by (intro floor_unique) auto
  with assms(1) show ?thesis
    by (simp add: round_to_even_def)
next
  case False
  with assms(2) have f: "\<lfloor>x\<rfloor> = n"
    by (intro floor_unique) auto
  with assms(2) show ?thesis
    by (simp add: round_to_even_def)
qed

lemma round_to_even_bound:
  assumes "\<bar>x\<bar> < of_int N"
  shows "\<bar>round_to_even x\<bar> \<le> N"
proof -
  have "\<lfloor>x\<rfloor> < N" "- N \<le> \<lfloor>x\<rfloor>"
    using assms by (simp_all add: floor_less_iff le_floor_iff abs_less_iff)
  then show ?thesis
    using round_to_even_cases [of x] by auto
qed

lemma fl_eval:
  assumes "2 powi e \<le> \<bar>x\<bar>" and "\<bar>x\<bar> < 2 powi (e + 1)" and "- 1022 \<le> e" and "e < 1023"
  shows "fl x = Finite (of_int (round_to_even (x / 2 powi (e - 52))) * 2 powi (e - 52))"
proof -
  have "0 < (2::real) powi e"
    by simp
  with assms(1) have "0 < \<bar>x\<bar>"
    by linarith
  then have x0: "x \<noteq> 0"
    by simp
  have q: "quantum x = 2 powi (e - 52)"
    using assms(3) by (simp add: quantum_def exponent_eqI [OF assms(1,2)] max_def)
  let ?q = "(2::real) powi (e - 52)"
  have qpos: "0 < ?q" by simp
  have "\<bar>x / ?q\<bar> < 2 powi (e + 1) / ?q"
    using assms(2) qpos by (simp add: divide_strict_right_mono abs_divide)
  also have "(2::real) powi (e + 1) / ?q = 2 powi 53"
    by (simp add: power_int_diff [symmetric])
  finally have "\<bar>x / ?q\<bar> < of_int (2 ^ 53)"
    by simp
  then have "\<bar>round_to_even (x / ?q)\<bar> \<le> 2 ^ 53"
    by (rule round_to_even_bound)
  then have "\<bar>of_int (round_to_even (x / ?q)) :: real\<bar> \<le> 2 ^ 53"
    by (metis of_int_abs of_int_le_iff of_int_numeral of_int_power)
  then have "\<bar>of_int (round_to_even (x / ?q)) * ?q\<bar> \<le> 2 ^ 53 * ?q"
    using qpos by (simp add: abs_mult mult_right_mono)
  also have "2 ^ 53 * ?q = 2 powi (e + 1)"
    by (simp add: power_int_diff field_simps power_int_add)
  also have "\<dots> \<le> 2 powi 1023"
    using assms(4) by (intro power_int_increasing) auto
  also have "\<dots> < 2 ^ 1024"
    by simp
  finally show ?thesis
    using x0 by (simp add: fl_def q Let_def)
qed

lemma fl_of_int:
  assumes "\<bar>k\<bar> < 2 ^ 53"
  shows "fl (of_int k) = Finite (of_int k)"
proof (cases "k = 0")
  case True
  then show ?thesis by (simp add: fl_def)
next
  case False
  define e where "e = exponent (of_int k)"
  have pos: "0 < \<bar>real_of_int k\<bar>" using False by simp
  have "(2::real) powr (of_int e) \<le> \<bar>of_int k\<bar> \<and> \<bar>real_of_int k\<bar> < 2 powr (of_int e + 1)"
    using floor_log_eq_powr_iff [of "\<bar>real_of_int k\<bar>" 2 e] pos
    by (simp add: e_def exponent_def)
  moreover have "(2::real) powr (of_int e) = 2 powi e"
    by (rule powr_real_of_int') simp_all
  moreover have "(2::real) powr (of_int (e + 1)) = 2 powi (e + 1)"
    by (rule powr_real_of_int') simp_all
  ultimately have lo: "2 powi e \<le> \<bar>real_of_int k\<bar>" and hi: "\<bar>real_of_int k\<bar> < 2 powi (e + 1)"
    by simp_all
  have "1 \<le> \<bar>real_of_int k\<bar>"
    using False by (metis abs_ge_zero abs_zero of_int_abs of_int_le_iff of_int_1 zero_less_abs_iff
        int_one_le_iff_zero_less)
  with hi have "(2::real) powi 0 < 2 powi (e + 1)" by simp
  then have e0: "0 \<le> e"
    using power_int_increasing [of "e + 1" 0 "2::real"] by (cases "0 \<le> e") auto
  have "\<bar>real_of_int k\<bar> < 2 powi 53"
    using assms by (metis of_int_abs of_int_less_iff of_int_numeral of_int_power power_int_numeral)
  with lo have "(2::real) powi e < 2 powi 53" by simp
  then have e52: "e \<le> 52"
    using power_int_increasing [of 53 e "2::real"] by (cases "e \<le> 52") auto
  have "(2::real) powi (e - 52) = inverse (2 powi (52 - e))"
    using power_int_minus [of "2::real" "52 - e"] by simp
  also have "(2::real) powi (52 - e) = 2 ^ nat (52 - e)"
    using e52 by (simp add: power_int_def)
  finally have q: "(2::real) powi (e - 52) = inverse (2 ^ nat (52 - e))" .
  have "real_of_int k / 2 powi (e - 52) = of_int (k * 2 ^ nat (52 - e))"
    by (simp add: q field_simps)
  then have "round_to_even (real_of_int k / 2 powi (e - 52)) = k * 2 ^ nat (52 - e)"
    by (simp only: round_to_even_int)
  then have "of_int (round_to_even (real_of_int k / 2 powi (e - 52))) * 2 powi (e - 52)
      = real_of_int k"
    by (simp add: q)
  then show ?thesis
    using fl_eval [OF lo hi] e0 e52 by simp
qed

lemma fl_numeral: "(numeral n :: int) < 2 ^ 53 \<Longrightarrow> fl (numeral n) = Finite (numeral n)"
  using fl_of_int [of "numeral n"] by simp

lemma fl_neg_numeral:
  "(numeral n :: int) < 2 ^ 53 \<Longrightarrow> fl (- numeral n) = Finite (- numeral n)"
  using fl_of_int [of "- numeral n"] by simp

lemma fl_0: "fl 0 = Finite 0"
  by (simp add: fl_def)

lemma fl_1: "fl 1 = Finite 1"
  using fl_of_int [of 1] by simp

lemma fl_sqrt_eval:
  assumes "c = of_int n * 2 powi (e - 52)"
    and "2 powi e \<le> c - 2 powi (e - 53)" and "c + 2 powi (e - 53) \<le> 2 powi (e + 1)"
    and "(c - 2 powi (e - 53)) * (c - 2 powi (e - 53)) < v"
    and "v < (c + 2 powi (e - 53)) * (c + 2 powi (e - 53))"
    and "- 1022 \<le> e" and "e < 1023"
  shows "fl (sqrt v) = Finite c"
proof -
  let ?h = "(2::real) powi (e - 53)" and ?q = "(2::real) powi (e - 52)"
  have q: "?q = 2 * ?h"
    by (simp add: power_int_diff)
  have hpos: "0 < ?h" by simp
  have "0 < (2::real) powi e"
    by simp
  with assms(2) have lo0: "0 \<le> c - ?h"
    by linarith
  have "(c - ?h)\<^sup>2 < v"
    using assms(4) by (simp add: power2_eq_square)
  then have lo: "c - ?h < sqrt v"
    by (rule real_less_rsqrt)
  have "0 \<le> (c - ?h) * (c - ?h)"
    by simp
  with assms(4) have v0: "0 \<le> v"
    by linarith
  have "v < (c + ?h)\<^sup>2"
    using assms(5) by (simp add: power2_eq_square)
  moreover have "0 \<le> c + ?h"
    using lo0 hpos by linarith
  ultimately have hi: "sqrt v < c + ?h"
    by (intro real_less_lsqrt)
  have b1: "2 powi e \<le> \<bar>sqrt v\<bar>" and b2: "\<bar>sqrt v\<bar> < 2 powi (e + 1)"
    using lo hi assms(2,3) v0 by auto
  have "of_int n - 1 / 2 < sqrt v / ?q" "sqrt v / ?q < of_int n + 1 / 2"
    using lo hi hpos unfolding assms(1) q by (simp_all add: field_simps)
  then have "round_to_even (sqrt v / ?q) = n"
    by (rule round_to_even_eqI)
  then show ?thesis
    using fl_eval [OF b1 b2 assms(6,7)] by (simp add: assms(1))
qed

lemmas dbl_defs = dbl_add_def dbl_sub_def dbl_mul_def dbl_div_def dbl_sqrt_def

lemmas fl_int = fl_0 fl_1 fl_numeral fl_neg_numeral

subsection \<open>The standard deviation of two lists, operation by operation\<close>

text \<open>
  The scores 32, 35, 38, 43, 44, 45, 48, 49, 50 have the mean \<open>128 / 3\<close> and the population
  standard deviation 6 as real numbers. \<open>getStandardDeviation\<close> rounds the mean and each
  of the operations after it, and returns \<open>6.000000000000001\<close>, which is
  \<open>6 + 2^(-50)\<close>. Each lemma is one operation of the run.
\<close>

lemma cap6_1: "dbl_add (Finite 32) (Finite 35) = Finite 67"
  by (simp add: dbl_add_def fl_numeral fl_neg_numeral fl_1)

lemma cap6_2: "dbl_add (Finite 67) (Finite 38) = Finite 105"
  by (simp add: dbl_add_def fl_numeral fl_neg_numeral fl_1)

lemma cap6_3: "dbl_add (Finite 105) (Finite 43) = Finite 148"
  by (simp add: dbl_add_def fl_numeral fl_neg_numeral fl_1)

lemma cap6_4: "dbl_add (Finite 148) (Finite 44) = Finite 192"
  by (simp add: dbl_add_def fl_numeral fl_neg_numeral fl_1)

lemma cap6_5: "dbl_add (Finite 192) (Finite 45) = Finite 237"
  by (simp add: dbl_add_def fl_numeral fl_neg_numeral fl_1)

lemma cap6_6: "dbl_add (Finite 237) (Finite 48) = Finite 285"
  by (simp add: dbl_add_def fl_numeral fl_neg_numeral fl_1)

lemma cap6_7: "dbl_add (Finite 285) (Finite 49) = Finite 334"
  by (simp add: dbl_add_def fl_numeral fl_neg_numeral fl_1)

lemma cap6_8: "dbl_add (Finite 334) (Finite 50) = Finite 384"
  by (simp add: dbl_add_def fl_numeral fl_neg_numeral fl_1)

lemma cap6_9: "dbl_div (Finite 384) (Finite 9) = Finite (6004799503160661 / 140737488355328)"
  using fl_eval [of 5 "384 / 9"]
  by (simp add: dbl_div_def round_to_even_def)

lemma cap6_10:
  "dbl_sub (Finite 32)
     (Finite (6004799503160661 / 140737488355328))
   = Finite (- (1501199875790165 / 140737488355328))"
  using fl_eval [of 3 "32 - (6004799503160661 / 140737488355328)"]
  by (simp add: dbl_sub_def dbl_add_def round_to_even_def)

lemma cap6_11:
  "dbl_mul (Finite (- (1501199875790165 / 140737488355328)))
     (Finite (- (1501199875790165 / 140737488355328)))
   = Finite (8006399337547545 / 70368744177664)"
  using fl_eval [of 6
      "(- (1501199875790165 / 140737488355328))
       * (- (1501199875790165 / 140737488355328))"]
  by (simp add: dbl_mul_def round_to_even_def)

lemma cap6_12:
  "dbl_sub (Finite 35)
     (Finite (6004799503160661 / 140737488355328))
   = Finite (- (1078987410724181 / 140737488355328))"
  using fl_eval [of 2 "35 - (6004799503160661 / 140737488355328)"]
  by (simp add: dbl_sub_def dbl_add_def round_to_even_def)

lemma cap6_13:
  "dbl_mul (Finite (- (1078987410724181 / 140737488355328)))
     (Finite (- (1078987410724181 / 140737488355328)))
   = Finite (2068059203888013 / 35184372088832)"
  using fl_eval [of 5
      "(- (1078987410724181 / 140737488355328))
       * (- (1078987410724181 / 140737488355328))"]
  by (simp add: dbl_mul_def round_to_even_def)

lemma cap6_14:
  "dbl_sub (Finite 38)
     (Finite (6004799503160661 / 140737488355328))
   = Finite (- (656774945658197 / 140737488355328))"
  using fl_eval [of 2 "38 - (6004799503160661 / 140737488355328)"]
  by (simp add: dbl_sub_def dbl_add_def round_to_even_def)

lemma cap6_15:
  "dbl_mul (Finite (- (656774945658197 / 140737488355328)))
     (Finite (- (656774945658197 / 140737488355328)))
   = Finite (1532474873202459 / 70368744177664)"
  using fl_eval [of 4
      "(- (656774945658197 / 140737488355328))
       * (- (656774945658197 / 140737488355328))"]
  by (simp add: dbl_mul_def round_to_even_def)

lemma cap6_16:
  "dbl_sub (Finite 43)
     (Finite (6004799503160661 / 140737488355328))
   = Finite (46912496118443 / 140737488355328)"
  using fl_eval [of "- 2" "43 - (6004799503160661 / 140737488355328)"]
  by (simp add: dbl_sub_def dbl_add_def round_to_even_def)

lemma cap6_17:
  "dbl_mul (Finite (46912496118443 / 140737488355328))
     (Finite (46912496118443 / 140737488355328))
   = Finite (4003199668773831 / 36028797018963968)"
  using fl_eval [of "- 4"
      "(46912496118443 / 140737488355328)
       * (46912496118443 / 140737488355328)"]
  by (simp add: dbl_mul_def round_to_even_def)

lemma cap6_18:
  "dbl_sub (Finite 44)
     (Finite (6004799503160661 / 140737488355328))
   = Finite (187649984473771 / 140737488355328)"
  using fl_eval [of 0 "44 - (6004799503160661 / 140737488355328)"]
  by (simp add: dbl_sub_def dbl_add_def round_to_even_def)

lemma cap6_19:
  "dbl_mul (Finite (187649984473771 / 140737488355328))
     (Finite (187649984473771 / 140737488355328))
   = Finite (8006399337547577 / 4503599627370496)"
  using fl_eval [of 0
      "(187649984473771 / 140737488355328)
       * (187649984473771 / 140737488355328)"]
  by (simp add: dbl_mul_def round_to_even_def)

lemma cap6_20:
  "dbl_sub (Finite 45)
     (Finite (6004799503160661 / 140737488355328))
   = Finite (328387472829099 / 140737488355328)"
  using fl_eval [of 1 "45 - (6004799503160661 / 140737488355328)"]
  by (simp add: dbl_sub_def dbl_add_def round_to_even_def)

lemma cap6_21:
  "dbl_mul (Finite (328387472829099 / 140737488355328))
     (Finite (328387472829099 / 140737488355328))
   = Finite (3064949746404927 / 562949953421312)"
  using fl_eval [of 2
      "(328387472829099 / 140737488355328)
       * (328387472829099 / 140737488355328)"]
  by (simp add: dbl_mul_def round_to_even_def)

lemma cap6_22:
  "dbl_sub (Finite 48)
     (Finite (6004799503160661 / 140737488355328))
   = Finite (750599937895083 / 140737488355328)"
  using fl_eval [of 2 "48 - (6004799503160661 / 140737488355328)"]
  by (simp add: dbl_sub_def dbl_add_def round_to_even_def)

lemma cap6_23:
  "dbl_mul (Finite (750599937895083 / 140737488355328))
     (Finite (750599937895083 / 140737488355328))
   = Finite (2001599834386889 / 70368744177664)"
  using fl_eval [of 4
      "(750599937895083 / 140737488355328)
       * (750599937895083 / 140737488355328)"]
  by (simp add: dbl_mul_def round_to_even_def)

lemma cap6_24:
  "dbl_sub (Finite 49)
     (Finite (6004799503160661 / 140737488355328))
   = Finite (891337426250411 / 140737488355328)"
  using fl_eval [of 2 "49 - (6004799503160661 / 140737488355328)"]
  by (simp add: dbl_sub_def dbl_add_def round_to_even_def)

lemma cap6_25:
  "dbl_mul (Finite (891337426250411 / 140737488355328))
     (Finite (891337426250411 / 140737488355328))
   = Finite (705642129114909 / 17592186044416)"
  using fl_eval [of 5
      "(891337426250411 / 140737488355328)
       * (891337426250411 / 140737488355328)"]
  by (simp add: dbl_mul_def round_to_even_def)

lemma cap6_26:
  "dbl_sub (Finite 50)
     (Finite (6004799503160661 / 140737488355328))
   = Finite (1032074914605739 / 140737488355328)"
  using fl_eval [of 2 "50 - (6004799503160661 / 140737488355328)"]
  by (simp add: dbl_sub_def dbl_add_def round_to_even_def)

lemma cap6_27:
  "dbl_mul (Finite (1032074914605739 / 140737488355328))
     (Finite (1032074914605739 / 140737488355328))
   = Finite (3784274686887711 / 70368744177664)"
  using fl_eval [of 5
      "(1032074914605739 / 140737488355328)
       * (1032074914605739 / 140737488355328)"]
  by (simp add: dbl_mul_def round_to_even_def)

lemma cap6_28:
  "dbl_add (Finite 0)
     (Finite (8006399337547545 / 70368744177664))
   = Finite (8006399337547545 / 70368744177664)"
  using fl_eval [of 6 "0 + (8006399337547545 / 70368744177664)"]
  by (simp add: dbl_add_def round_to_even_def)

lemma cap6_29:
  "dbl_add (Finite (8006399337547545 / 70368744177664))
     (Finite (2068059203888013 / 35184372088832))
   = Finite (3035629436330893 / 17592186044416)"
  using fl_eval [of 7
      "(8006399337547545 / 70368744177664)
       + (2068059203888013 / 35184372088832)"]
  by (simp add: dbl_add_def round_to_even_def)

lemma cap6_30:
  "dbl_add (Finite (3035629436330893 / 17592186044416))
     (Finite (1532474873202459 / 70368744177664))
   = Finite (854687038657877 / 4398046511104)"
  using fl_eval [of 7
      "(3035629436330893 / 17592186044416)
       + (1532474873202459 / 70368744177664)"]
  by (simp add: dbl_add_def round_to_even_def)

lemma cap6_31:
  "dbl_add (Finite (854687038657877 / 4398046511104))
     (Finite (4003199668773831 / 36028797018963968))
   = Finite (6841405683939553 / 35184372088832)"
  using fl_eval [of 7
      "(854687038657877 / 4398046511104)
       + (4003199668773831 / 36028797018963968)"]
  by (simp add: dbl_add_def round_to_even_def)

lemma cap6_32:
  "dbl_add (Finite (6841405683939553 / 35184372088832))
     (Finite (8006399337547577 / 4503599627370496))
   = Finite (6903955678764143 / 35184372088832)"
  using fl_eval [of 7
      "(6841405683939553 / 35184372088832)
       + (8006399337547577 / 4503599627370496)"]
  by (simp add: dbl_add_def round_to_even_def)

lemma cap6_33:
  "dbl_add (Finite (6903955678764143 / 35184372088832))
     (Finite (3064949746404927 / 562949953421312))
   = Finite (7095515037914451 / 35184372088832)"
  using fl_eval [of 7
      "(6903955678764143 / 35184372088832)
       + (3064949746404927 / 562949953421312)"]
  by (simp add: dbl_add_def round_to_even_def)

lemma cap6_34:
  "dbl_add (Finite (7095515037914451 / 35184372088832))
     (Finite (2001599834386889 / 70368744177664))
   = Finite (1012039369388487 / 4398046511104)"
  using fl_eval [of 7
      "(7095515037914451 / 35184372088832)
       + (2001599834386889 / 70368744177664)"]
  by (simp add: dbl_add_def round_to_even_def)

lemma cap6_35:
  "dbl_add (Finite (1012039369388487 / 4398046511104))
     (Finite (705642129114909 / 17592186044416))
   = Finite (4753799606668857 / 17592186044416)"
  using fl_eval [of 8
      "(1012039369388487 / 4398046511104)
       + (705642129114909 / 17592186044416)"]
  by (simp add: dbl_add_def round_to_even_def)

lemma cap6_36:
  "dbl_add (Finite (4753799606668857 / 17592186044416))
     (Finite (3784274686887711 / 70368744177664))
   = Finite (5699868278390785 / 17592186044416)"
  using fl_eval [of 8
      "(4753799606668857 / 17592186044416)
       + (3784274686887711 / 70368744177664)"]
  by (simp add: dbl_add_def round_to_even_def)

lemma cap6_37:
  "dbl_div (Finite (5699868278390785 / 17592186044416))
     (Finite 9)
   = Finite (5066549580791809 / 140737488355328)"
  using fl_eval [of 5 "(5699868278390785 / 17592186044416) / 9"]
  by (simp add: dbl_div_def round_to_even_def)

lemma cap6_sqrt:
  "dbl_sqrt (Finite (5066549580791809 / 140737488355328))
   = Finite (6755399441055745 / 1125899906842624)"
proof -
  have "fl (sqrt (5066549580791809 / 140737488355328))
      = Finite (6755399441055745 / 1125899906842624)"
    by (rule fl_sqrt_eval [where n = 6755399441055745 and e = 2]) simp_all
  then show ?thesis
    by (simp add: dbl_sqrt_def)
qed

lemma cap6_sd:
  "getStandardDeviation (map Finite [32, 35, 38, 43, 44, 45, 48, 49, 50])
   = Finite (6755399441055745 / 1125899906842624)"
  by (simp add: getStandardDeviation_def Let_def
      cap6_1 cap6_2 cap6_3 cap6_4 cap6_5 cap6_6 cap6_7 cap6_8 cap6_9 cap6_10 cap6_11 cap6_12
      cap6_13 cap6_14 cap6_15 cap6_16 cap6_17 cap6_18 cap6_19 cap6_20 cap6_21 cap6_22
      cap6_23 cap6_24 cap6_25 cap6_26 cap6_27 cap6_28 cap6_29 cap6_30 cap6_31 cap6_32
      cap6_33 cap6_34 cap6_35 cap6_36 cap6_37 cap6_sqrt)

lemma cap6_38: "dbl_add (Finite 44) (Finite (6755399441055745 / 1125899906842624)) = Finite 50"
  using fl_eval [of 5 "44 + (6755399441055745 / 1125899906842624)"]
  by (simp add: dbl_add_def round_to_even_def)

lemma cap6_39: "dbl_sub (Finite 44) (Finite (6755399441055745 / 1125899906842624)) = Finite 38"
  using fl_eval [of 5 "44 - (6755399441055745 / 1125899906842624)"]
  by (simp add: dbl_sub_def dbl_add_def round_to_even_def)

text \<open>
  The scores 3, 3, 5, 7, 11, 13, 15, 15, 30 have the population standard deviation 8 as
  real numbers; \<open>getStandardDeviation\<close> returns \<open>7.999999999999999\<close>, which is
  \<open>8 - 2^(-50)\<close>, so that the lower bound around the score 11 is \<open>3.000000000000001\<close>.
\<close>

lemma near8_1: "dbl_add (Finite 3) (Finite 3) = Finite 6"
  by (simp add: dbl_add_def fl_numeral fl_neg_numeral fl_1)

lemma near8_2: "dbl_add (Finite 6) (Finite 5) = Finite 11"
  by (simp add: dbl_add_def fl_numeral fl_neg_numeral fl_1)

lemma near8_3: "dbl_add (Finite 11) (Finite 7) = Finite 18"
  by (simp add: dbl_add_def fl_numeral fl_neg_numeral fl_1)

lemma near8_4: "dbl_add (Finite 18) (Finite 11) = Finite 29"
  by (simp add: dbl_add_def fl_numeral fl_neg_numeral fl_1)

lemma near8_5: "dbl_add (Finite 29) (Finite 13) = Finite 42"
  by (simp add: dbl_add_def fl_numeral fl_neg_numeral fl_1)

lemma near8_6: "dbl_add (Finite 42) (Finite 15) = Finite 57"
  by (simp add: dbl_add_def fl_numeral fl_neg_numeral fl_1)

lemma near8_7: "dbl_add (Finite 57) (Finite 15) = Finite 72"
  by (simp add: dbl_add_def fl_numeral fl_neg_numeral fl_1)

lemma near8_8: "dbl_add (Finite 72) (Finite 30) = Finite 102"
  by (simp add: dbl_add_def fl_numeral fl_neg_numeral fl_1)

lemma near8_9: "dbl_div (Finite 102) (Finite 9) = Finite (6380099472108203 / 562949953421312)"
  using fl_eval [of 3 "102 / 9"]
  by (simp add: dbl_div_def round_to_even_def)

lemma near8_10:
  "dbl_sub (Finite 3)
     (Finite (6380099472108203 / 562949953421312))
   = Finite (- (4691249611844267 / 562949953421312))"
  using fl_eval [of 3 "3 - (6380099472108203 / 562949953421312)"]
  by (simp add: dbl_sub_def dbl_add_def round_to_even_def)

lemma near8_11:
  "dbl_mul (Finite (- (4691249611844267 / 562949953421312)))
     (Finite (- (4691249611844267 / 562949953421312)))
   = Finite (610839793208889 / 8796093022208)"
  using fl_eval [of 6
      "(- (4691249611844267 / 562949953421312))
       * (- (4691249611844267 / 562949953421312))"]
  by (simp add: dbl_mul_def round_to_even_def)

lemma near8_12:
  "dbl_sub (Finite 5)
     (Finite (6380099472108203 / 562949953421312))
   = Finite (- (3565349705001643 / 562949953421312))"
  using fl_eval [of 2 "5 - (6380099472108203 / 562949953421312)"]
  by (simp add: dbl_sub_def dbl_add_def round_to_even_def)

lemma near8_13:
  "dbl_mul (Finite (- (3565349705001643 / 562949953421312)))
     (Finite (- (3565349705001643 / 562949953421312)))
   = Finite (5645137032919269 / 140737488355328)"
  using fl_eval [of 5
      "(- (3565349705001643 / 562949953421312))
       * (- (3565349705001643 / 562949953421312))"]
  by (simp add: dbl_mul_def round_to_even_def)

lemma near8_14:
  "dbl_sub (Finite 7)
     (Finite (6380099472108203 / 562949953421312))
   = Finite (- (2439449798159019 / 562949953421312))"
  using fl_eval [of 2 "7 - (6380099472108203 / 562949953421312)"]
  by (simp add: dbl_sub_def dbl_add_def round_to_even_def)

lemma near8_15:
  "dbl_mul (Finite (- (2439449798159019 / 562949953421312)))
     (Finite (- (2439449798159019 / 562949953421312)))
   = Finite (5285474562677875 / 281474976710656)"
  using fl_eval [of 4
      "(- (2439449798159019 / 562949953421312))
       * (- (2439449798159019 / 562949953421312))"]
  by (simp add: dbl_mul_def round_to_even_def)

lemma near8_16:
  "dbl_sub (Finite 11)
     (Finite (6380099472108203 / 562949953421312))
   = Finite (- (187649984473771 / 562949953421312))"
  using fl_eval [of "- 2" "11 - (6380099472108203 / 562949953421312)"]
  by (simp add: dbl_sub_def dbl_add_def round_to_even_def)

lemma near8_17:
  "dbl_mul (Finite (- (187649984473771 / 562949953421312)))
     (Finite (- (187649984473771 / 562949953421312)))
   = Finite (8006399337547577 / 72057594037927936)"
  using fl_eval [of "- 4"
      "(- (187649984473771 / 562949953421312))
       * (- (187649984473771 / 562949953421312))"]
  by (simp add: dbl_mul_def round_to_even_def)

lemma near8_18:
  "dbl_sub (Finite 13)
     (Finite (6380099472108203 / 562949953421312))
   = Finite (938249922368853 / 562949953421312)"
  using fl_eval [of 0 "13 - (6380099472108203 / 562949953421312)"]
  by (simp add: dbl_sub_def dbl_add_def round_to_even_def)

lemma near8_19:
  "dbl_mul (Finite (938249922368853 / 562949953421312))
     (Finite (938249922368853 / 562949953421312))
   = Finite (3127499741229509 / 1125899906842624)"
  using fl_eval [of 1
      "(938249922368853 / 562949953421312)
       * (938249922368853 / 562949953421312)"]
  by (simp add: dbl_mul_def round_to_even_def)

lemma near8_20:
  "dbl_sub (Finite 15)
     (Finite (6380099472108203 / 562949953421312))
   = Finite (2064149829211477 / 562949953421312)"
  using fl_eval [of 1 "15 - (6380099472108203 / 562949953421312)"]
  by (simp add: dbl_sub_def dbl_add_def round_to_even_def)

lemma near8_21:
  "dbl_mul (Finite (2064149829211477 / 562949953421312))
     (Finite (2064149829211477 / 562949953421312))
   = Finite (3784274686887707 / 281474976710656)"
  using fl_eval [of 3
      "(2064149829211477 / 562949953421312)
       * (2064149829211477 / 562949953421312)"]
  by (simp add: dbl_mul_def round_to_even_def)

lemma near8_22:
  "dbl_sub (Finite 30)
     (Finite (6380099472108203 / 562949953421312))
   = Finite (2627099782632789 / 140737488355328)"
  using fl_eval [of 4 "30 - (6380099472108203 / 562949953421312)"]
  by (simp add: dbl_sub_def dbl_add_def round_to_even_def)

lemma near8_23:
  "dbl_mul (Finite (2627099782632789 / 140737488355328))
     (Finite (2627099782632789 / 140737488355328))
   = Finite (383118718300615 / 1099511627776)"
  using fl_eval [of 8
      "(2627099782632789 / 140737488355328)
       * (2627099782632789 / 140737488355328)"]
  by (simp add: dbl_mul_def round_to_even_def)

lemma near8_24:
  "dbl_add (Finite 0)
     (Finite (610839793208889 / 8796093022208))
   = Finite (610839793208889 / 8796093022208)"
  using fl_eval [of 6 "0 + (610839793208889 / 8796093022208)"]
  by (simp add: dbl_add_def round_to_even_def)

lemma near8_25:
  "dbl_add (Finite (610839793208889 / 8796093022208))
     (Finite (610839793208889 / 8796093022208))
   = Finite (610839793208889 / 4398046511104)"
  using fl_eval [of 7 "(610839793208889 / 8796093022208) + (610839793208889 / 8796093022208)"]
  by (simp add: dbl_add_def round_to_even_def)

lemma near8_26:
  "dbl_add (Finite (610839793208889 / 4398046511104))
     (Finite (5645137032919269 / 140737488355328))
   = Finite (6298002603900929 / 35184372088832)"
  using fl_eval [of 7
      "(610839793208889 / 4398046511104)
       + (5645137032919269 / 140737488355328)"]
  by (simp add: dbl_add_def round_to_even_def)

lemma near8_27:
  "dbl_add (Finite (6298002603900929 / 35184372088832))
     (Finite (5285474562677875 / 281474976710656))
   = Finite (6958686924235663 / 35184372088832)"
  using fl_eval [of 7
      "(6298002603900929 / 35184372088832)
       + (5285474562677875 / 281474976710656)"]
  by (simp add: dbl_add_def round_to_even_def)

lemma near8_28:
  "dbl_add (Finite (6958686924235663 / 35184372088832))
     (Finite (8006399337547577 / 72057594037927936))
   = Finite (870324537364025 / 4398046511104)"
  using fl_eval [of 7
      "(6958686924235663 / 35184372088832)
       + (8006399337547577 / 72057594037927936)"]
  by (simp add: dbl_add_def round_to_even_def)

lemma near8_29:
  "dbl_add (Finite (870324537364025 / 4398046511104))
     (Finite (3127499741229509 / 1125899906842624))
   = Finite (3530165332912811 / 17592186044416)"
  using fl_eval [of 7
      "(870324537364025 / 4398046511104)
       + (3127499741229509 / 1125899906842624)"]
  by (simp add: dbl_add_def round_to_even_def)

lemma near8_30:
  "dbl_add (Finite (3530165332912811 / 17592186044416))
     (Finite (3784274686887707 / 281474976710656))
   = Finite (7533365001686585 / 35184372088832)"
  using fl_eval [of 7
      "(3530165332912811 / 17592186044416)
       + (3784274686887707 / 281474976710656)"]
  by (simp add: dbl_add_def round_to_even_def)

lemma near8_31:
  "dbl_add (Finite (7533365001686585 / 35184372088832))
     (Finite (3784274686887707 / 281474976710656))
   = Finite (2001599834386887 / 8796093022208)"
  using fl_eval [of 7
      "(7533365001686585 / 35184372088832)
       + (3784274686887707 / 281474976710656)"]
  by (simp add: dbl_add_def round_to_even_def)

lemma near8_32:
  "dbl_add (Finite (2001599834386887 / 8796093022208))
     (Finite (383118718300615 / 1099511627776))
   = Finite (5066549580791807 / 8796093022208)"
  using fl_eval [of 9 "(2001599834386887 / 8796093022208) + (383118718300615 / 1099511627776)"]
  by (simp add: dbl_add_def round_to_even_def)

lemma near8_33:
  "dbl_div (Finite (5066549580791807 / 8796093022208))
     (Finite 9)
   = Finite (4503599627370495 / 70368744177664)"
  using fl_eval [of 5 "(5066549580791807 / 8796093022208) / 9"]
  by (simp add: dbl_div_def round_to_even_def)

lemma near8_sqrt:
  "dbl_sqrt (Finite (4503599627370495 / 70368744177664))
   = Finite (9007199254740991 / 1125899906842624)"
proof -
  have "fl (sqrt (4503599627370495 / 70368744177664))
      = Finite (9007199254740991 / 1125899906842624)"
    by (rule fl_sqrt_eval [where n = 9007199254740991 and e = 2]) simp_all
  then show ?thesis
    by (simp add: dbl_sqrt_def)
qed

lemma near8_sd:
  "getStandardDeviation (map Finite [3, 3, 5, 7, 11, 13, 15, 15, 30])
   = Finite (9007199254740991 / 1125899906842624)"
  by (simp add: getStandardDeviation_def Let_def
      near8_1 near8_2 near8_3 near8_4 near8_5 near8_6 near8_7 near8_8 near8_9 near8_10
      near8_11 near8_12 near8_13 near8_14 near8_15 near8_16 near8_17 near8_18 near8_19
      near8_20 near8_21 near8_22 near8_23 near8_24 near8_25 near8_26 near8_27 near8_28
      near8_29 near8_30 near8_31 near8_32 near8_33 near8_sqrt)

lemma near8_34: "dbl_add (Finite 11) (Finite (9007199254740991 / 1125899906842624)) = Finite 19"
  using fl_eval [of 4 "11 + (9007199254740991 / 1125899906842624)"]
  by (simp add: dbl_add_def round_to_even_def)

lemma near8_35:
  "dbl_sub (Finite 11)
     (Finite (9007199254740991 / 1125899906842624))
   = Finite (3377699720527873 / 1125899906842624)"
  using fl_eval [of 1 "11 - (9007199254740991 / 1125899906842624)"]
  by (simp add: dbl_sub_def dbl_add_def round_to_even_def)

subsection \<open>The loop\<close>

lemma num_less_key:
  "a \<noteq> NaN \<Longrightarrow> b \<noteq> NaN \<Longrightarrow> num_less a b \<longleftrightarrow> num_key a < num_key b"
  by (cases a; cases b) simp_all

lemma length_splice1: "i < length xs \<Longrightarrow> length (splice1 i xs) = length xs - 1"
  by (simp add: splice1_def)

lemma nth_splice1: "k < i \<Longrightarrow> i < length xs \<Longrightarrow> splice1 i xs ! k = xs ! k"
  by (simp add: splice1_def nth_append)

lemma set_splice1: "set (splice1 i xs) \<subseteq> set xs"
  using set_take_subset [of i xs] set_drop_subset [of "Suc i" xs]
  by (auto simp: splice1_def)

lemma set_splice1_conv:
  assumes "i < length xs"
  shows "set xs = insert (xs ! i) (set (splice1 i xs))"
proof -
  have "set xs = set (take i xs @ xs ! i # drop (Suc i) xs)"
    using id_take_nth_drop [OF assms] by simp
  then show ?thesis
    by (auto simp: splice1_def)
qed

lemma filter_splice1:
  assumes "i < length xs" and "\<not> P (xs ! i)"
  shows "filter P (splice1 i xs) = filter P xs"
proof -
  have "filter P xs = filter P (take i xs @ xs ! i # drop (Suc i) xs)"
    using id_take_nth_drop [OF assms(1)] by simp
  also have "\<dots> = filter P (splice1 i xs)"
    using assms(2) by (simp add: splice1_def)
  finally show ?thesis by simp
qed

lemma sorted_splice1:
  assumes "sorted (map f xs)"
  shows "sorted (map f (splice1 i xs))"
proof -
  have "sorted (map f (take i xs) @ map f (drop i xs))"
    using assms by (simp flip: map_append)
  then have t: "sorted (map f (take i xs))" and d: "sorted (map f (drop i xs))"
    and c: "\<forall>x \<in> set (take i xs). \<forall>y \<in> set (drop i xs). f x \<le> f y"
    by (auto simp: sorted_append)
  have "drop (Suc i) xs = tl (drop i xs)"
    by (simp add: drop_Suc tl_drop)
  then have d': "sorted (map f (drop (Suc i) xs))"
    using d by (simp add: map_tl sorted_tl)
  have "set (drop (Suc i) xs) \<subseteq> set (drop i xs)"
    by (rule set_drop_subset_set_drop) simp
  with c have "\<forall>x \<in> set (take i xs). \<forall>y \<in> set (drop (Suc i) xs). f x \<le> f y"
    by blast
  with t d' show ?thesis
    by (simp add: splice1_def sorted_append)
qed

text \<open>
  On an array sorted by score that holds an element within the bounds, the loop removes
  exactly the elements outside the bounds: the first test never fires at index 0, so the
  read of \<open>sortedArr[-1]\<close> does not happen, and an element is never skipped.
\<close>

lemma filter_loop_filter:
  assumes "sorted (map (\<lambda>item. num_key (generated_lix item)) sortedArr)"
    and "\<forall>item \<in> set sortedArr. generated_lix item \<noteq> NaN"
    and "upperBound \<noteq> NaN"
    and "i \<le> length sortedArr"
    and "\<forall>k < i. within_bounds upperBound lowerBound (sortedArr ! k)"
    and "\<exists>item \<in> set sortedArr. within_bounds upperBound lowerBound item"
  shows "filter_loop upperBound lowerBound i sortedArr
    = filter (within_bounds upperBound lowerBound) sortedArr"
  using assms
proof (induction upperBound lowerBound i sortedArr rule: filter_loop.induct)
  case (1 upperBound lowerBound i sortedArr)
  note IH = "1.IH" and srt = "1.prems"(1) and nn = "1.prems"(2) and ub = "1.prems"(3)
    and le = "1.prems"(4) and before = "1.prems"(5) and ex = "1.prems"(6)
  let ?P = "within_bounds upperBound lowerBound"
  show ?case
  proof (cases "i < length sortedArr")
    case False
    with le have "i = length sortedArr" by simp
    with before have "\<forall>item \<in> set sortedArr. ?P item"
      by (auto simp: in_set_conv_nth)
    then have "filter ?P sortedArr = sortedArr"
      by simp
    with False show ?thesis
      by (subst filter_loop.simps) simp
  next
    case inb: True
    show ?thesis
    proof (cases "num_greater (generated_lix (sortedArr ! i)) upperBound")
      case gt: True
      then have out: "\<not> ?P (sortedArr ! i)"
        by (simp add: within_bounds_def)
      have "i \<noteq> 0"
      proof
        assume i0: "i = 0"
        from ex obtain w where w: "w \<in> set sortedArr" and pw: "?P w"
          by blast
        from w obtain k where k: "k < length sortedArr" and wk: "w = sortedArr ! k"
          by (auto simp: in_set_conv_nth)
        have "num_key (generated_lix (sortedArr ! 0)) \<le> num_key (generated_lix (sortedArr ! k))"
          using sorted_nth_mono [OF srt, of 0 k] k inb i0 by simp
        moreover have "num_key upperBound < num_key (generated_lix (sortedArr ! 0))"
          using gt i0 inb nn ub by (simp add: num_greater_def num_less_key)
        ultimately have "num_key upperBound < num_key (generated_lix w)"
          using wk by simp
        then have "num_greater (generated_lix w) upperBound"
          using nn w ub by (simp add: num_greater_def num_less_key)
        with pw show False
          by (simp add: within_bounds_def)
      qed
      then obtain j where j: "i = Suc j"
        by (cases i) auto
      have jin: "?P (sortedArr ! j)"
        using before j by simp
      have "splice1 i sortedArr ! j = sortedArr ! j"
        using j inb by (simp add: nth_splice1)
      with jin have nlt: "\<not> num_less (generated_lix (splice1 i sortedArr ! j)) lowerBound"
        by (simp add: within_bounds_def)
      have step: "filter_loop upperBound lowerBound i sortedArr
          = filter_loop upperBound lowerBound (Suc j) (splice1 i sortedArr)"
        using inb gt j nlt by (subst filter_loop.simps) simp
      have "filter_loop upperBound lowerBound (Suc j) (splice1 i sortedArr)
          = filter ?P (splice1 i sortedArr)"
      proof (rule IH(2) [OF inb gt j nlt])
        show "sorted (map (\<lambda>item. num_key (generated_lix item)) (splice1 i sortedArr))"
          using srt by (rule sorted_splice1)
        show "\<forall>item \<in> set (splice1 i sortedArr). generated_lix item \<noteq> NaN"
          using nn set_splice1 [of i sortedArr] by blast
        show "upperBound \<noteq> NaN" by (rule ub)
        show "Suc j \<le> length (splice1 i sortedArr)"
          using inb j by (simp add: length_splice1)
        show "\<forall>k < Suc j. ?P (splice1 i sortedArr ! k)"
          using before j inb by (simp add: nth_splice1)
        show "\<exists>item \<in> set (splice1 i sortedArr). ?P item"
          using ex out set_splice1_conv [OF inb] by auto
      qed
      with step show ?thesis
        using filter_splice1 [of i sortedArr ?P, OF inb out] by simp
    next
      case ngt: False
      show ?thesis
      proof (cases "num_less (generated_lix (sortedArr ! i)) lowerBound")
        case lt: True
        then have out: "\<not> ?P (sortedArr ! i)"
          by (simp add: within_bounds_def)
        have step: "filter_loop upperBound lowerBound i sortedArr
            = filter_loop upperBound lowerBound i (splice1 i sortedArr)"
          using inb ngt lt by (subst filter_loop.simps) simp
        have "filter_loop upperBound lowerBound i (splice1 i sortedArr)
            = filter ?P (splice1 i sortedArr)"
        proof (rule IH(3) [OF inb ngt lt])
          show "sorted (map (\<lambda>item. num_key (generated_lix item)) (splice1 i sortedArr))"
            using srt by (rule sorted_splice1)
          show "\<forall>item \<in> set (splice1 i sortedArr). generated_lix item \<noteq> NaN"
            using nn set_splice1 [of i sortedArr] by blast
          show "upperBound \<noteq> NaN" by (rule ub)
          show "i \<le> length (splice1 i sortedArr)"
            using inb by (simp add: length_splice1)
          show "\<forall>k < i. ?P (splice1 i sortedArr ! k)"
            using before inb by (simp add: nth_splice1)
          show "\<exists>item \<in> set (splice1 i sortedArr). ?P item"
            using ex out set_splice1_conv [OF inb] by auto
        qed
        with step show ?thesis
          using filter_splice1 [of i sortedArr ?P, OF inb out] by simp
      next
        case nlt: False
        have here: "?P (sortedArr ! i)"
          using ngt nlt by (simp add: within_bounds_def)
        have step: "filter_loop upperBound lowerBound i sortedArr
            = filter_loop upperBound lowerBound (Suc i) sortedArr"
          using inb ngt nlt by (subst filter_loop.simps) simp
        have "filter_loop upperBound lowerBound (Suc i) sortedArr = filter ?P sortedArr"
        proof (rule IH(4) [OF inb ngt nlt srt nn ub])
          show "Suc i \<le> length sortedArr"
            using inb by simp
          show "\<forall>k < Suc i. ?P (sortedArr ! k)"
            using before here by (simp add: less_Suc_eq)
          show "\<exists>item \<in> set sortedArr. ?P item"
            by (rule ex)
        qed
        with step show ?thesis by simp
      qed
    qed
  qed
qed

lemma set_filter_loop: "set (filter_loop upperBound lowerBound i sortedArr) \<subseteq> set sortedArr"
proof (induction upperBound lowerBound i sortedArr rule: filter_loop.induct)
  case (1 upperBound lowerBound i sortedArr)
  note IH = 1
  show ?case
  proof (cases "i < length sortedArr")
    case False
    then show ?thesis
      by (simp add: filter_loop.simps)
  next
    case inb: True
    show ?thesis
    proof (cases "num_greater (generated_lix (sortedArr ! i)) upperBound")
      case gt: True
      show ?thesis
      proof (cases i)
        case 0
        with inb gt show ?thesis
          using set_splice1 [of 0 sortedArr]
          by (subst filter_loop.simps) simp
      next
        case (Suc j)
        show ?thesis
        proof (cases "num_less (generated_lix (splice1 i sortedArr ! j)) lowerBound")
          case True
          have "set (filter_loop upperBound lowerBound j (splice1 j (splice1 i sortedArr)))
              \<subseteq> set (splice1 j (splice1 i sortedArr))"
            using IH(1) [OF inb gt Suc True] .
          also have "\<dots> \<subseteq> set sortedArr"
            using set_splice1 [of j "splice1 i sortedArr"] set_splice1 [of i sortedArr] by blast
          finally show ?thesis
            using inb gt Suc True by (subst filter_loop.simps) simp
        next
          case False
          have "set (filter_loop upperBound lowerBound (Suc j) (splice1 i sortedArr))
              \<subseteq> set (splice1 i sortedArr)"
            using IH(2) [OF inb gt Suc False] .
          also have "\<dots> \<subseteq> set sortedArr"
            by (rule set_splice1)
          finally show ?thesis
            using inb gt Suc False by (subst filter_loop.simps) simp
        qed
      qed
    next
      case ngt: False
      show ?thesis
      proof (cases "num_less (generated_lix (sortedArr ! i)) lowerBound")
        case True
        have "set (filter_loop upperBound lowerBound i (splice1 i sortedArr))
            \<subseteq> set (splice1 i sortedArr)"
          using IH(3) [OF inb ngt True] .
        also have "\<dots> \<subseteq> set sortedArr"
          by (rule set_splice1)
        finally show ?thesis
          using inb ngt True by (subst filter_loop.simps) simp
      next
        case False
        have "set (filter_loop upperBound lowerBound (Suc i) sortedArr) \<subseteq> set sortedArr"
          using IH(4) [OF inb ngt False] .
        then show ?thesis
          using inb ngt False by (subst filter_loop.simps) simp
      qed
    qed
  qed
qed

lemma set_filterItems:
  assumes "filterItemsUsingStandardDeviation scored maxStdDev = Inr kept"
  shows "set kept \<subseteq> set scored"
proof -
  let ?sorted = "sort_key (\<lambda>item. num_key (generated_lix item)) scored"
  from assms have "kept = ?sorted \<or> (\<exists>u l. kept = filter_loop u l 0 ?sorted)"
    by (auto simp: filterItemsUsingStandardDeviation_def Let_def split: if_splits)
  then show ?thesis
    using set_filter_loop [of _ _ 0 ?sorted] by auto
qed

lemma num_greater_NaN [simp]: "\<not> num_greater NaN b"
  by (cases b) (simp_all add: num_greater_def)

subsection \<open>The filter\<close>

text \<open>
  When the standard deviation exceeds the cap, no score is \<open>NaN\<close> and the middle item
  lies within the bounds, the filter returns the list sorted ascending by score without
  exactly the items whose score is strictly greater than \<open>midValue + stdDev\<close> or strictly
  less than \<open>midValue - stdDev\<close>: the bounds are computed once, before any removal, and
  the in-place removal skips no item.
\<close>

lemma outlier_filter_removes_outside:
  assumes "scored \<noteq> []"
    and "sortedArr = sort_key (\<lambda>item. num_key (generated_lix item)) scored"
    and "midValue = generated_lix (sortedArr ! (length scored div 2))"
    and "stdDev = getStandardDeviation (map (\<lambda>item. toFixed0 (generated_lix item)) sortedArr)"
    and "num_greater stdDev maxStdDev"
    and "\<forall>item \<in> set scored. generated_lix item \<noteq> NaN"
    and "dbl_add midValue stdDev \<noteq> NaN"
    and "within_bounds (dbl_add midValue stdDev) (dbl_sub midValue stdDev)
           (sortedArr ! (length scored div 2))"
  shows "filterItemsUsingStandardDeviation scored maxStdDev
    = Inr (filter (within_bounds (dbl_add midValue stdDev) (dbl_sub midValue stdDev)) sortedArr)"
proof -
  have len: "length sortedArr = length scored"
    by (simp add: assms(2))
  have mid: "length sortedArr div 2 < length sortedArr"
    using assms(1) len by simp
  have nn: "\<forall>item \<in> set sortedArr. generated_lix item \<noteq> NaN"
    using assms(6) by (simp add: assms(2))
  have mem: "sortedArr ! (length scored div 2) \<in> set sortedArr"
    using mid len by simp
  let ?ub = "dbl_add midValue stdDev" and ?lb = "dbl_sub midValue stdDev"
  from mem assms(8) have ex: "\<exists>item \<in> set sortedArr. within_bounds ?ub ?lb item"
    by blast
  have srt: "sorted (map (\<lambda>item. num_key (generated_lix item)) sortedArr)"
    unfolding assms(2) by simp
  have loop: "filter_loop ?ub ?lb 0 sortedArr = filter (within_bounds ?ub ?lb) sortedArr"
    using srt nn assms(7) _ _ ex by (rule filter_loop_filter) simp_all
  have mv: "generated_lix (sortedArr ! (length sortedArr div 2)) = midValue"
    by (simp add: assms(3) len)
  have "filterItemsUsingStandardDeviation scored maxStdDev
      = Inr (filter_loop ?ub ?lb 0 sortedArr)"
    using mid assms(5)
    by (simp add: filterItemsUsingStandardDeviation_def Let_def mv
        flip: assms(2) assms(4))
  with loop show ?thesis
    by simp
qed

text \<open>
  The bounds are those of the rounded operations. For the scores 15, 11, 3, 3, 15, 13, 5,
  30, 7 the computed deviation is just below 8 and the lower bound around the middle
  score 11 is just above 3: both items of score 3 are removed, and the item of score 30.
\<close>

lemma outlier_filter_rounded_bounds:
  "filterItemsUsingStandardDeviation
     [demo_item 15, demo_item 11, demo_item 3, demo_item 3, demo_item 15, demo_item 13, demo_item 5, demo_item 30, demo_item 7] (Finite 6)
   = Inr [demo_item 5, demo_item 7, demo_item 11, demo_item 13, demo_item 15, demo_item 15]"
proof -
  let ?sorted = "[demo_item 3, demo_item 3, demo_item 5, demo_item 7, demo_item 11, demo_item 13, demo_item 15, demo_item 15, demo_item 30]"
  have srt: "sort_key (\<lambda>item. num_key (generated_lix item))
      [demo_item 15, demo_item 11, demo_item 3, demo_item 3, demo_item 15, demo_item 13, demo_item 5, demo_item 30, demo_item 7] = ?sorted"
    by (simp add: demo_item_def)
  have sd: "getStandardDeviation (map (\<lambda>item. toFixed0 (generated_lix item)) ?sorted)
      = Finite (9007199254740991 / 1125899906842624)"
    using near8_sd by (simp add: demo_item_def)
  show ?thesis
    unfolding filterItemsUsingStandardDeviation_def Let_def srt sd
    by (simp add: demo_item_def near8_34 near8_35 num_greater_def filter_loop.simps splice1_def)
qed

text \<open>
  C2. The filter does not centre its bounds on the median. For the scores 10, 10, 30, 30
  the median, as \<open>getMedian\<close> computes it, is 20 and the standard deviation is 10, above
  the cap 6: with the median as centre both 10s lie on the lower bound 10, and nothing is
  to be removed. \<open>filterItemsUsingStandardDeviation\<close> centres the bounds on
  \<open>sortedArr[midIndex]\<close>, which is 30 here, the upper of the two middle scores, and
  removes both 10s.
\<close>

theorem outlier_filter_centre:
  "getMedian (map generated_lix [demo_item 10, demo_item 10, demo_item 30, demo_item 30])
     = Some (Finite 20)
   \<and> getStandardDeviation (map (\<lambda>item. toFixed0 (generated_lix item))
        [demo_item 10, demo_item 10, demo_item 30, demo_item 30]) = Finite 10
   \<and> spec_outlier_filter [demo_item 10, demo_item 10, demo_item 30, demo_item 30] (Finite 6)
     = [demo_item 10, demo_item 10, demo_item 30, demo_item 30]
   \<and> filterItemsUsingStandardDeviation
        [demo_item 10, demo_item 10, demo_item 30, demo_item 30] (Finite 6)
     = Inr [demo_item 30, demo_item 30]"
proof -
  have sd: "getStandardDeviation (map Finite [10, 10, 30, 30]) = Finite 10"
    by (simp add: getStandardDeviation_def dbl_defs fl_int)
  have med: "getMedian (map Finite [10, 10, 30, 30]) = Some (Finite 20)"
    by (simp add: getMedian_def)
  have spec: "spec_outlier_filter [demo_item 10, demo_item 10, demo_item 30, demo_item 30]
      (Finite 6) = [demo_item 10, demo_item 10, demo_item 30, demo_item 30]"
    using sd med
    by (simp add: spec_outlier_filter_def demo_item_def num_greater_def dbl_defs fl_int Let_def)
  have code: "filterItemsUsingStandardDeviation
      [demo_item 10, demo_item 10, demo_item 30, demo_item 30] (Finite 6)
      = Inr [demo_item 30, demo_item 30]"
    using sd
    by (simp add: filterItemsUsingStandardDeviation_def demo_item_def num_greater_def
        dbl_defs fl_int filter_loop.simps splice1_def Let_def)
  from sd med spec code show ?thesis
    by (simp add: demo_item_def)
qed

text \<open>
  C9, as the code has it. For every non-empty list of scored items for which the
  standard deviation that \<open>getStandardDeviation\<close> computes, in double arithmetic and from
  the rounded scores in ascending order, does not exceed the cap, the filter returns the
  list sorted ascending by score, with nothing removed.
\<close>

theorem filter_noop:
  assumes "scored \<noteq> []"
    and "\<not> num_greater (getStandardDeviation (map (\<lambda>item. toFixed0 (generated_lix item))
            (sort_key (\<lambda>item. num_key (generated_lix item)) scored))) maxStdDev"
  shows "filterItemsUsingStandardDeviation scored maxStdDev
           = Inr (sort_key (\<lambda>item. num_key (generated_lix item)) scored)"
proof -
  have "length scored div 2 < length scored"
    using assms(1) by simp
  then show ?thesis
    using assms(2) by (simp add: filterItemsUsingStandardDeviation_def Let_def)
qed

theorem filter_noop_witness:
  "filterItemsUsingStandardDeviation [demo_item 32, demo_item 28] (Finite 6)
     = Inr [demo_item 28, demo_item 32]"
proof -
  have "filterItemsUsingStandardDeviation [demo_item 32, demo_item 28] (Finite 6)
     = Inr (sort_key (\<lambda>item. num_key (generated_lix item)) [demo_item 32, demo_item 28])"
    by (rule filter_noop)
       (simp_all add: demo_item_def getStandardDeviation_def dbl_defs fl_int num_greater_def)
  then show ?thesis
    by (simp add: demo_item_def)
qed

text \<open>
  The claim as stated fails in two ways. On the empty list the standard deviation is 0,
  below any positive cap, and the filter throws instead of returning the list. And the
  scores 44, 49, 32, 38, 45, 43, 35, 50, 48 have the population standard deviation 6,
  equal to the cap, while the computed one is \<open>6.000000000000001\<close>: the filter runs and
  removes the items of score 32 and 35, which lie below the lower bound 38.
\<close>

theorem filter_noop_counterexample:
  "getStandardDeviation (map (\<lambda>item. toFixed0 (generated_lix item)) []) = Finite 0
   \<and> filterItemsUsingStandardDeviation [] (Finite 6) = Inl TypeError
   \<and> population_standard_deviation [44, 49, 32, 38, 45, 43, 35, 50, 48] = 6
   \<and> filterItemsUsingStandardDeviation
        [demo_item 44, demo_item 49, demo_item 32, demo_item 38, demo_item 45, demo_item 43, demo_item 35, demo_item 50, demo_item 48] (Finite 6)
     = Inr [demo_item 38, demo_item 43, demo_item 44, demo_item 45, demo_item 48, demo_item 49, demo_item 50]"
proof -
  let ?sorted = "[demo_item 32, demo_item 35, demo_item 38, demo_item 43, demo_item 44, demo_item 45, demo_item 48, demo_item 49, demo_item 50]"
  have srt: "sort_key (\<lambda>item. num_key (generated_lix item))
      [demo_item 44, demo_item 49, demo_item 32, demo_item 38, demo_item 45, demo_item 43, demo_item 35, demo_item 50, demo_item 48] = ?sorted"
    by (simp add: demo_item_def)
  have sd: "getStandardDeviation (map (\<lambda>item. toFixed0 (generated_lix item)) ?sorted)
      = Finite (6755399441055745 / 1125899906842624)"
    using cap6_sd by (simp add: demo_item_def)
  have code: "filterItemsUsingStandardDeviation
      [demo_item 44, demo_item 49, demo_item 32, demo_item 38, demo_item 45, demo_item 43, demo_item 35, demo_item 50, demo_item 48] (Finite 6)
      = Inr [demo_item 38, demo_item 43, demo_item 44, demo_item 45, demo_item 48, demo_item 49, demo_item 50]"
    unfolding filterItemsUsingStandardDeviation_def Let_def srt sd
    by (simp add: demo_item_def cap6_38 cap6_39 num_greater_def filter_loop.simps splice1_def)
  have "sqrt 36 = sqrt (6\<^sup>2)"
    by simp
  then have real: "population_standard_deviation [44, 49, 32, 38, 45, 43, 35, 50, 48] = 6"
    by (simp add: population_standard_deviation_def del: real_sqrt_four)
  have empty: "getStandardDeviation (map (\<lambda>item. toFixed0 (generated_lix item)) []) = Finite 0
      \<and> filterItemsUsingStandardDeviation [] (Finite 6) = Inl TypeError"
    by (simp add: filterItemsUsingStandardDeviation_def getStandardDeviation_def)
  from empty real code show ?thesis
    by simp
qed

section \<open>Properties of the analysis\<close>

subsection \<open>Two runs\<close>

lemma demo_content1:
  "extractContentFromText (str ''Hello world. LIX 23.'') =
     \<lparr>words = [str ''Hello'', str ''world'', str ''LIX'', str ''23''], long_words = [],
      sentences = [str ''Hello world.'', str ''LIX 23.'']\<rparr>"
  by (simp add: str_def tokenizer_defs char_class_defs Let_def)

lemma demo_search1: "searchForLixInText (str ''Hello world. LIX 23.'') = Some (Finite 23)"
  by (simp add: str_def lix_search_defs char_class_defs)

lemma demo_paths:
  "extractItemPathsFromManifest demo_manifest (str ''OEBPS'') = Inr [str ''OEBPS/chapter1.xhtml'']"
  by (simp add: extractItemPathsFromManifest_def demo_manifest_def array_truthy_def
      template_value_def str_def)

lemma demo_run1:
  "analyzeEpub length (\<lambda>p. str ''Hello world. LIX 23.'') 1000 demo_manifest (str ''OEBPS'') =
     Inr \<lparr>file_bytes = 1000, lix = Finite 23,
          stats = \<lparr>word_count = 4, long_word_count = 0, sentence_count = 2,
                   lix_found = Some (Finite 23), lix_median = Some (Finite 2),
                   lix_generated = Finite 2\<rparr>,
          items = [\<lparr>word_count = 4, long_word_count = 0, sentence_count = 2,
                    stats_title = str ''chapter1.xhtml'', stats_generated_lix = Finite 2\<rparr>]\<rparr>"
  apply (simp add: analyzeEpub_def demo_paths extractItemsFromSpine_def)
  apply (simp add: analyzeSpineItems_def getSpineItemStats_def filteredSpineItemContent_def
      contentItems_def chapters_def spineItemContent_def demo_content1 content_stats_def
      calculateLixFromStats_def searchForLixInItems_def demo_search1 Let_def
      STANDARD_DEVIATION_FACTOR_def filterItemsUsingStandardDeviation_def
      getStandardDeviation_def dbl_defs fl_int num_greater_def spineItemStats_def
      getTotalStats_def getMedian_def nullish_def)
  apply (simp add: str_def basename_def)
  done

lemma demo_content2:
  "extractContentFromText (str ''Hello world. Fine.'') =
     \<lparr>words = [str ''Hello'', str ''world'', str ''Fine''], long_words = [],
      sentences = [str ''Hello world.'', str ''Fine.'']\<rparr>"
  by (simp add: str_def tokenizer_defs char_class_defs Let_def)

lemma demo_content3:
  "extractContentFromText (str ''One two three four five six seven eight.'') =
     \<lparr>words = [str ''One'', str ''two'', str ''three'', str ''four'', str ''five'', str ''six'',
               str ''seven'', str ''eight''],
      long_words = [], sentences = [str ''One two three four five six seven eight.'']\<rparr>"
  by (simp add: str_def tokenizer_defs char_class_defs Let_def)

lemma demo_search2: "searchForLixInText (str ''Hello world. Fine.'') = None"
  by (simp add: str_def lix_search_defs char_class_defs)

lemma demo_search3:
  "searchForLixInText (str ''One two three four five six seven eight.'') = None"
  by (simp add: str_def lix_search_defs char_class_defs)

lemma demo_paths2:
  "extractItemPathsFromManifest demo_manifest2 (str ''.'')
     = Inr [str ''chapter1.xhtml'', str ''chapter2.xhtml'']"
  by (simp add: extractItemPathsFromManifest_def demo_manifest2_def array_truthy_def
      template_value_def str_def)

lemma demo_items2:
  "extractItemsFromSpine demo_load2 [str ''chapter1.xhtml'', str ''chapter2.xhtml'']
     = Inr demo_items"
  by (simp add: extractItemsFromSpine_def demo_load2_def demo_items_def str_def)

lemma demo_contentItems: "contentItems demo_items = demo_items"
  by (simp add: contentItems_def chapters_def demo_items_def CHAPTER_REGEX_def str_def
      ci_prefix_def canonicalize_def is_lower_def)

lemma demo_filtered:
  "filteredSpineItemContent demo_items =
     [\<lparr>words = [str ''Hello'', str ''world'', str ''Fine''], long_words = [],
       sentences = [str ''Hello world.'', str ''Fine.''],
       title = str ''chapter1.xhtml'', generated_lix = Finite 2\<rparr>,
      \<lparr>words = [str ''One'', str ''two'', str ''three'', str ''four'', str ''five'', str ''six'',
               str ''seven'', str ''eight''],
       long_words = [], sentences = [str ''One two three four five six seven eight.''],
       title = str ''chapter2.xhtml'', generated_lix = Finite 8\<rparr>]"
  unfolding filteredSpineItemContent_def demo_contentItems
  apply (simp add: demo_items_def spineItemContent_def demo_content2 demo_content3
      content_stats_def calculateLixFromStats_def Let_def)
  apply (simp add: str_def basename_def)
  done

lemma demo_outliers:
  "filterItemsUsingStandardDeviation (filteredSpineItemContent demo_items) (Finite 6)
     = Inr (filteredSpineItemContent demo_items)"
  unfolding demo_filtered
  by (simp add: filterItemsUsingStandardDeviation_def getStandardDeviation_def dbl_defs fl_int
      num_greater_def Let_def)

lemma demo_stats:
  "getSpineItemStats length demo_items =
     Inr [\<lparr>word_count = 3, long_word_count = 0, sentence_count = 2,
           stats_title = str ''chapter1.xhtml'', stats_generated_lix = Finite 2\<rparr>,
          \<lparr>word_count = 8, long_word_count = 0, sentence_count = 1,
           stats_title = str ''chapter2.xhtml'', stats_generated_lix = Finite 8\<rparr>]"
  unfolding getSpineItemStats_def STANDARD_DEVIATION_FACTOR_def demo_outliers
  by (simp add: demo_filtered spineItemStats_def str_def)

lemma demo_no_colophon:
  "\<not> regex_test_ci COLOPHON_REGEX (str ''chapter1.xhtml'')"
  "\<not> regex_test_ci COLOPHON_REGEX (str ''chapter2.xhtml'')"
  by (simp_all add: COLOPHON_REGEX_def str_def ci_prefix_def canonicalize_def is_lower_def)

lemma demo_found: "searchForLixInItems demo_items = None"
  by (simp add: searchForLixInItems_def demo_items_def demo_no_colophon demo_search2
      demo_search3)

lemma demo_analysis:
  "analyzeSpineItems length 2000 demo_items =
     Inr \<lparr>file_bytes = 2000, lix = Finite 5,
          stats = \<lparr>word_count = 11, long_word_count = 0, sentence_count = 3,
                   lix_found = None, lix_median = Some (Finite 5),
                   lix_generated = Finite 4\<rparr>,
          items = [\<lparr>word_count = 3, long_word_count = 0, sentence_count = 2,
                    stats_title = str ''chapter1.xhtml'', stats_generated_lix = Finite 2\<rparr>,
                   \<lparr>word_count = 8, long_word_count = 0, sentence_count = 1,
                    stats_title = str ''chapter2.xhtml'', stats_generated_lix = Finite 8\<rparr>]\<rparr>"
  unfolding analyzeSpineItems_def demo_stats demo_found
  by (simp add: getTotalStats_def getMedian_def calculateLixFromStats_def nullish_def Let_def)

lemma demo_run2:
  "analyzeEpub length demo_load2 2000 demo_manifest2 (str ''.'') =
     analyzeSpineItems length 2000 demo_items"
  by (simp add: analyzeEpub_def demo_paths2 demo_items2)

subsection \<open>Items without words or sentences\<close>

lemma filtered_counts_positive:
  assumes "c \<in> set (filteredSpineItemContent spineItems)"
  shows "words c \<noteq> [] \<and> sentences c \<noteq> []"
proof -
  from assms obtain item where c: "c = spineItemContent item"
    and t: "truthy (generated_lix (spineItemContent item))"
    by (auto simp: filteredSpineItemContent_def)
  let ?tc = "extractContentFromText (item_text item)"
  have lix: "generated_lix (spineItemContent item) = calculateLixFromStats (content_stats ?tc)"
    by (simp add: spineItemContent_def Let_def)
  have w: "words ?tc \<noteq> []"
  proof
    assume "words ?tc = []"
    then have "calculateLixFromStats (content_stats ?tc) = NaN"
      by (rule no_words_lix_NaN)
    with t lix show False by simp
  qed
  then have "sentences ?tc \<noteq> []"
    using no_sentences_no_words [of "item_text item"] by blast
  with w c show ?thesis
    by (simp add: spineItemContent_def Let_def)
qed

text \<open>
  On the statistics alone, words without a sentence are scored \<open>Infinity\<close>, which is
  truthy. No text has such statistics: without a sentence there is no word.
\<close>

lemma lix_without_sentences:
  "calculateLixFromStats \<lparr>word_count = 3, long_word_count = 0, sentence_count = 0\<rparr> = Infinity"
  by (simp add: calculateLixFromStats_def signed_infinity_def)

lemma sentence_count_0_word_count_0:
  "sentence_count (content_stats (extractContentFromText t)) = 0
    \<Longrightarrow> word_count (content_stats (extractContentFromText t)) = 0"
  using no_sentences_no_words [of t] by (simp add: content_stats_def)

text \<open>
  C3. For every content item whose sentence count or word count is 0, the score is
  \<open>NaN\<close>, which is falsy, so the item is not in the list of scored items that the
  outlier filter receives. Every item of that list, and so every item of the statistics
  that \<open>getSpineItemStats\<close> returns and that the totals, the median and the mean are
  computed from, has at least one word and one sentence.
\<close>

theorem zero_count_item_excluded:
  assumes "sentence_count (content_stats (extractContentFromText (item_text item))) = 0
         \<or> word_count (content_stats (extractContentFromText (item_text item))) = 0"
  shows "generated_lix (spineItemContent item) = NaN
    \<and> \<not> truthy (generated_lix (spineItemContent item))
    \<and> spineItemContent item \<notin> set (filteredSpineItemContent spineItems)
    \<and> (\<forall>c \<in> set (filteredSpineItemContent spineItems). words c \<noteq> [] \<and> sentences c \<noteq> [])
    \<and> (\<forall>stat_items. getSpineItemStats collate spineItems = Inr stat_items \<longrightarrow>
          (\<forall>s \<in> set stat_items. word_count s > 0 \<and> sentence_count s > 0))"
proof -
  let ?tc = "extractContentFromText (item_text item)"
  from assms have "sentences ?tc = [] \<or> words ?tc = []"
    by (simp add: content_stats_def)
  then have "words ?tc = []"
    using no_sentences_no_words by blast
  then have nan: "generated_lix (spineItemContent item) = NaN"
    using no_words_lix_NaN by (simp add: spineItemContent_def Let_def)
  then have falsy: "\<not> truthy (generated_lix (spineItemContent item))"
    by simp
  then have out: "spineItemContent item \<notin> set (filteredSpineItemContent spineItems)"
    by (auto simp: filteredSpineItemContent_def)
  have pos: "\<forall>c \<in> set (filteredSpineItemContent spineItems). words c \<noteq> [] \<and> sentences c \<noteq> []"
    using filtered_counts_positive by blast
  have "\<forall>s \<in> set stat_items. word_count s > 0 \<and> sentence_count s > 0"
    if run: "getSpineItemStats collate spineItems = Inr stat_items" for stat_items
  proof -
    from run obtain kept
      where kept: "filterItemsUsingStandardDeviation (filteredSpineItemContent spineItems)
          STANDARD_DEVIATION_FACTOR = Inr kept"
        and st: "stat_items = sort_key (\<lambda>item. collate (stats_title item)) (map spineItemStats kept)"
      by (auto simp: getSpineItemStats_def split: sum.splits)
    have "set kept \<subseteq> set (filteredSpineItemContent spineItems)"
      using kept by (rule set_filterItems)
    with pos have "\<forall>c \<in> set kept. words c \<noteq> [] \<and> sentences c \<noteq> []"
      by blast
    then show ?thesis
      unfolding st by (auto simp: spineItemStats_def)
  qed
  with nan falsy out pos show ?thesis
    by blast
qed

theorem zero_count_item_excluded_witness:
  "word_count (content_stats (extractContentFromText (str ''!!!''))) = 0
   \<and> generated_lix (spineItemContent \<lparr>path = str ''chapter9.xhtml'', item_text = str ''!!!''\<rparr>) = NaN
   \<and> filteredSpineItemContent [\<lparr>path = str ''chapter9.xhtml'', item_text = str ''!!!''\<rparr>] = []"
proof -
  let ?item = "\<lparr>path = str ''chapter9.xhtml'', item_text = str ''!!!''\<rparr>"
  have w: "word_count (content_stats (extractContentFromText (str ''!!!''))) = 0"
    by (simp add: content_stats_def str_def extractContentFromText_def match_words.simps
        char_class_defs Let_def)
  then have "generated_lix (spineItemContent ?item) = NaN
      \<and> \<not> truthy (generated_lix (spineItemContent ?item))"
    using zero_count_item_excluded [of ?item "[?item]" length] by simp
  then show ?thesis
    using w by (simp add: filteredSpineItemContent_def contentItems_def chapters_def)
qed

subsection \<open>Chapters\<close>

text \<open>
  C4. When the path of at least one item matches \<open>chapter\<close> or \<open>kapitel\<close>, ignoring
  case, the content items are exactly the matching items, and the scored items, the
  statistics of \<open>getSpineItemStats\<close> and the statistics of the report (items, totals,
  generated score, median) are those of the matching items alone: any list of items with
  the same matching items gives the same statistics. When no path matches, the content
  items are all items.
\<close>

theorem chapters_only:
  "((\<exists>item \<in> set spineItems. regex_test_ci CHAPTER_REGEX (path item)) \<longrightarrow>
      contentItems spineItems
        = filter (\<lambda>item. regex_test_ci CHAPTER_REGEX (path item)) spineItems
      \<and> filteredSpineItemContent spineItems = filteredSpineItemContent (chapters spineItems)
      \<and> getSpineItemStats collate spineItems = getSpineItemStats collate (chapters spineItems)
      \<and> map_sum id report_statistics (analyzeSpineItems collate fileBytes spineItems)
          = map_sum id report_statistics (analyzeSpineItems collate fileBytes (chapters spineItems))
      \<and> (\<forall>others. chapters others = chapters spineItems \<longrightarrow>
            getSpineItemStats collate others = getSpineItemStats collate spineItems))
   \<and> (\<not> (\<exists>item \<in> set spineItems. regex_test_ci CHAPTER_REGEX (path item)) \<longrightarrow>
        contentItems spineItems = spineItems)"
proof -
  have idem: "chapters (chapters xs) = chapters xs" for xs
    by (simp add: chapters_def)
  have none: "contentItems spineItems = spineItems"
    if "\<not> (\<exists>item \<in> set spineItems. regex_test_ci CHAPTER_REGEX (path item))"
    using that by (simp add: contentItems_def chapters_def filter_empty_conv)
  have some: "contentItems xs = chapters spineItems"
    if "\<exists>item \<in> set spineItems. regex_test_ci CHAPTER_REGEX (path item)"
      and "chapters xs = chapters spineItems" for xs
  proof -
    from that(1) have "chapters spineItems \<noteq> []"
      by (simp add: chapters_def filter_empty_conv)
    with that(2) show ?thesis
      by (simp add: contentItems_def)
  qed
  have stats_eq: "getSpineItemStats collate xs = getSpineItemStats collate ys"
    if "contentItems xs = contentItems ys" for xs ys
    using that by (simp add: getSpineItemStats_def filteredSpineItemContent_def)
  {
    assume ch: "\<exists>item \<in> set spineItems. regex_test_ci CHAPTER_REGEX (path item)"
    have c1: "contentItems spineItems = chapters spineItems"
      using some [OF ch refl] .
    have c2: "contentItems (chapters spineItems) = chapters spineItems"
      using some [OF ch idem] .
    have s: "getSpineItemStats collate spineItems = getSpineItemStats collate (chapters spineItems)"
      by (rule stats_eq) (simp add: c1 c2)
    have f: "filteredSpineItemContent spineItems = filteredSpineItemContent (chapters spineItems)"
      by (simp add: filteredSpineItemContent_def c1 c2)
    have a: "map_sum id report_statistics (analyzeSpineItems collate fileBytes spineItems)
        = map_sum id report_statistics (analyzeSpineItems collate fileBytes (chapters spineItems))"
      by (simp add: analyzeSpineItems_def s report_statistics_def Let_def split: sum.splits)
    have o: "getSpineItemStats collate others = getSpineItemStats collate spineItems"
      if "chapters others = chapters spineItems" for others
      by (rule stats_eq) (simp add: c1 some [OF ch that])
    have "contentItems spineItems
        = filter (\<lambda>item. regex_test_ci CHAPTER_REGEX (path item)) spineItems"
      using c1 by (simp add: chapters_def)
    with f s a o have "contentItems spineItems
        = filter (\<lambda>item. regex_test_ci CHAPTER_REGEX (path item)) spineItems
      \<and> filteredSpineItemContent spineItems = filteredSpineItemContent (chapters spineItems)
      \<and> getSpineItemStats collate spineItems = getSpineItemStats collate (chapters spineItems)
      \<and> map_sum id report_statistics (analyzeSpineItems collate fileBytes spineItems)
          = map_sum id report_statistics (analyzeSpineItems collate fileBytes (chapters spineItems))
      \<and> (\<forall>others. chapters others = chapters spineItems \<longrightarrow>
            getSpineItemStats collate others = getSpineItemStats collate spineItems)"
      by blast
  }
  with none show ?thesis
    by blast
qed

theorem chapters_only_witness:
  "contentItems (demo_cover # demo_items) = demo_items
   \<and> getSpineItemStats length (demo_cover # demo_items) = getSpineItemStats length demo_items
   \<and> contentItems [demo_cover] = [demo_cover]"
proof -
  have ch: "regex_test_ci CHAPTER_REGEX (str ''chapter1.xhtml'')"
    "regex_test_ci CHAPTER_REGEX (str ''chapter2.xhtml'')"
    "\<not> regex_test_ci CHAPTER_REGEX (str ''cover.xhtml'')"
    by (simp_all add: CHAPTER_REGEX_def str_def ci_prefix_def canonicalize_def is_lower_def)
  have c: "chapters (demo_cover # demo_items) = demo_items"
    by (simp add: chapters_def demo_cover_def demo_items_def ch)
  have f: "filter (\<lambda>item. regex_test_ci CHAPTER_REGEX (path item)) (demo_cover # demo_items)
      = demo_items"
    using c by (simp add: chapters_def)
  have ex: "\<exists>item \<in> set (demo_cover # demo_items). regex_test_ci CHAPTER_REGEX (path item)"
    by (simp add: demo_items_def ch)
  have nex: "\<not> (\<exists>item \<in> set [demo_cover]. regex_test_ci CHAPTER_REGEX (path item))"
    by (simp add: demo_cover_def ch)
  note thm1 = chapters_only [of "demo_cover # demo_items" length 0]
  note thm2 = chapters_only [of "[demo_cover]" length 0]
  from thm1 ex have a1: "contentItems (demo_cover # demo_items)
      = filter (\<lambda>item. regex_test_ci CHAPTER_REGEX (path item)) (demo_cover # demo_items)"
    by blast
  from thm1 ex have a2: "getSpineItemStats length (demo_cover # demo_items)
      = getSpineItemStats length (chapters (demo_cover # demo_items))"
    by blast
  from thm2 nex have b: "contentItems [demo_cover] = [demo_cover]"
    by blast
  from a1 a2 b show ?thesis
    unfolding c f by blast
qed

subsection \<open>The authoritative score\<close>

text \<open>
  C1. In the record of every analysis that completes, \<open>lix\<close> is the value found in the
  text when there is one; otherwise the median of the scores of the reported items when
  there is one; otherwise the score generated from the summed totals. The three
  candidates are what the record's statistics hold: the result of the search over the
  extracted items, the median of the items' scores, and the score of the totals.
\<close>

theorem analysis_lix_priority:
  assumes "analyzeEpub collate load fileBytes manifest opfRoot = Inr a"
  shows "lix a =
           (case lix_found (stats a) of
              Some found \<Rightarrow> found
            | None \<Rightarrow> (case lix_median (stats a) of
                         Some median \<Rightarrow> median
                       | None \<Rightarrow> lix_generated (stats a)))
    \<and> lix_median (stats a) = getMedian (map stats_generated_lix (items a))
    \<and> lix_generated (stats a) = calculateLixFromStats (getTotalStats (items a))
    \<and> (\<exists>spineItemPaths spineItems.
          extractItemPathsFromManifest manifest opfRoot = Inr spineItemPaths
          \<and> extractItemsFromSpine load spineItemPaths = Inr spineItems
          \<and> lix_found (stats a) = searchForLixInItems spineItems)"
  using assms
  by (auto simp: analyzeEpub_def analyzeSpineItems_def nullish_def Let_def
      split: sum.splits option.splits)

theorem analysis_lix_priority_witness:
  "(\<exists>a. analyzeEpub length (\<lambda>p. str ''Hello world. LIX 23.'') 1000 demo_manifest (str ''OEBPS'')
          = Inr a
        \<and> lix_found (stats a) = Some (Finite 23) \<and> lix a = Finite 23)
   \<and> (\<exists>a. analyzeEpub length demo_load2 2000 demo_manifest2 (str ''.'') = Inr a
        \<and> lix_found (stats a) = None \<and> lix_median (stats a) = Some (Finite 5)
        \<and> lix_generated (stats a) = Finite 4 \<and> lix a = Finite 5)"
proof -
  have a: "\<exists>a. analyzeEpub length (\<lambda>p. str ''Hello world. LIX 23.'') 1000 demo_manifest
      (str ''OEBPS'') = Inr a \<and> lix_found (stats a) = Some (Finite 23) \<and> lix a = Finite 23"
    using analysis_lix_priority [OF demo_run1] demo_run1 by simp
  have run2: "analyzeEpub length demo_load2 2000 demo_manifest2 (str ''.'') =
     Inr \<lparr>file_bytes = 2000, lix = Finite 5,
          stats = \<lparr>word_count = 11, long_word_count = 0, sentence_count = 3,
                   lix_found = None, lix_median = Some (Finite 5),
                   lix_generated = Finite 4\<rparr>,
          items = [\<lparr>word_count = 3, long_word_count = 0, sentence_count = 2,
                    stats_title = str ''chapter1.xhtml'', stats_generated_lix = Finite 2\<rparr>,
                   \<lparr>word_count = 8, long_word_count = 0, sentence_count = 1,
                    stats_title = str ''chapter2.xhtml'', stats_generated_lix = Finite 8\<rparr>]\<rparr>"
    unfolding demo_run2 by (rule demo_analysis)
  have b: "\<exists>a. analyzeEpub length demo_load2 2000 demo_manifest2 (str ''.'') = Inr a
      \<and> lix_found (stats a) = None \<and> lix_median (stats a) = Some (Finite 5)
      \<and> lix_generated (stats a) = Finite 4 \<and> lix a = Finite 5"
    using analysis_lix_priority [OF run2] run2 by simp
  from a b show ?thesis by blast
qed

end
